theory Spec2Isabelle
  imports Complex_Main "HOL-Library.Char_ord" "HOL-Library.List_Lexorder"
begin

section \<open>Numbers\<close>

text \<open>
  The amounts of the program are values of the TypeScript type \<open>number\<close>: IEEE 754
  binary64 values. A \<open>double\<close> is \<open>NaN\<close>, one of the two infinities, or a finite value,
  held as the rational it denotes. The two zeros are one value here, read as the positive
  zero: they are equal for \<open>===\<close> and \<open>>\<close> and differ only as divisors, and the one division
  of the program is guarded by \<open>n > 0\<close>.
\<close>

datatype double = NotANumber | Infinity | NegInfinity | Finite rat

instantiation double :: zero
begin

definition zero_double :: double where
  "zero_double = Finite 0"

instance ..

end

text \<open>The number of binary digits of a positive integer.\<close>

function bitLength :: "int \<Rightarrow> int" where
  "bitLength n = (if n \<le> 0 then 0 else 1 + bitLength (n div 2))"
  by pat_completeness auto
termination
  by (relation "measure nat") auto

declare bitLength.simps [simp del]

definition pow2 :: "int \<Rightarrow> rat" where
  "pow2 e = (if 0 \<le> e then 2 ^ nat e else 1 / 2 ^ nat (- e))"

text \<open>The binary exponent of a positive rational \<open>x\<close>: the \<open>k\<close> with \<open>2^k \<le> x < 2^(k+1)\<close>.\<close>

definition floorLog2 :: "rat \<Rightarrow> int" where
  "floorLog2 x =
     (if 1 \<le> x then bitLength \<lfloor>x\<rfloor> - 1
      else - bitLength (\<lceil>1 / x\<rceil> - 1))"

text \<open>Rounding to the nearest integer, a tie going to the even one.\<close>

definition roundHalfEven :: "rat \<Rightarrow> int" where
  "roundHalfEven m =
     (let f = \<lfloor>m\<rfloor>; d = m - of_int f in
      if d < 1 / 2 then f
      else if 1 / 2 < d then f + 1
      else if even f then f else f + 1)"

text \<open>
  The result of an arithmetic operation is the exact result rounded to the nearest
  double: a significand of 53 binary digits, the exponent of the last digit not below
  \<open>-1074\<close> (the subnormal range), a tie going to the even significand, and an infinity
  when the rounded magnitude reaches \<open>2^1024\<close>.
\<close>

definition roundDouble :: "rat \<Rightarrow> double" where
  "roundDouble x =
     (if x = 0 then Finite 0
      else
        let a = \<bar>x\<bar>;
            e = max (floorLog2 a - 52) (- 1074);
            r = of_int (roundHalfEven (a / pow2 e)) * pow2 e
        in if 2 ^ 1024 \<le> r then (if 0 < x then Infinity else NegInfinity)
           else Finite (if 0 < x then r else - r))"

text \<open>The operators \<open>+\<close>, unary and binary \<open>-\<close>, \<open>/\<close>, \<open>>\<close> and \<open>===\<close> on numbers.\<close>

fun add :: "double \<Rightarrow> double \<Rightarrow> double" where
  "add NotANumber y = NotANumber"
| "add x NotANumber = NotANumber"
| "add Infinity NegInfinity = NotANumber"
| "add NegInfinity Infinity = NotANumber"
| "add Infinity y = Infinity"
| "add x Infinity = Infinity"
| "add NegInfinity y = NegInfinity"
| "add x NegInfinity = NegInfinity"
| "add (Finite a) (Finite b) = roundDouble (a + b)"




fun greaterThan :: "double \<Rightarrow> double \<Rightarrow> bool" where
  "greaterThan NotANumber y = False"
| "greaterThan x NotANumber = False"
| "greaterThan (Finite a) (Finite b) = (b < a)"
| "greaterThan Infinity y = (y \<noteq> Infinity)"
| "greaterThan x NegInfinity = (x \<noteq> NegInfinity)"
| "greaterThan x y = False"

definition strictEquals :: "double \<Rightarrow> double \<Rightarrow> bool" where
  "strictEquals x y = (x \<noteq> NotANumber \<and> x = y)"

type_synonym amount = double

section \<open>Loan calculator\<close>



section \<open>Voucher entries\<close>

text \<open>One line of a voucher, as the form builds it and the \<open>entries\<close> column stores it.\<close>

record VoucherEntry =
  particulars :: string
  debit :: amount
  credit :: amount

section \<open>Schema\<close>

text \<open>
  The insert types of the three tables that carry a generated identifier, as the schema
  declares them (the columns \<open>id\<close>, \<open>createdAt\<close> and \<open>updatedAt\<close> are omitted from
  the insert schemas and filled in by the database). A \<open>text\<close> column is a string, a
  \<open>decimal\<close> column is the string of its digits, a \<open>timestamp\<close> is a number of
  milliseconds, a nullable column or one with a default is optional.
\<close>

type_synonym date = int
type_synonym json = string

datatype member_status = active | inactive
datatype loan_type = general | personal | housing | vehicle | education | other_loans
datatype voucher_type = payment | receipt | journal | contra | adjustment | others
datatype payment_mode = mode_cash | mode_cheque | mode_opening

fun voucher_type_name :: "voucher_type \<Rightarrow> string" where
  "voucher_type_name payment = ''payment''"
| "voucher_type_name receipt = ''receipt''"
| "voucher_type_name journal = ''journal''"
| "voucher_type_name contra = ''contra''"
| "voucher_type_name adjustment = ''adjustment''"
| "voucher_type_name others = ''others''"

record InsertMember =
  memNo :: string
  name :: string
  fatherHusbandName :: "string option"
  officeAddress :: "string option"
  city :: "string option"
  phoneOffice :: "string option"
  branch :: "string option"
  phoneResidence :: "string option"
  mobile :: "string option"
  designation :: "string option"
  residenceAddress :: "string option"
  dateOfBirth :: "date option"
  dateOfJoiningSociety :: "date option"
  email :: "string option"
  dateOfJoiningOrg :: "date option"
  dateOfRetirement :: "date option"
  nominee :: "string option"
  nomineeRelation :: "string option"
  openingBalanceShare :: "string option"
  openingBalanceType :: "string option"
  bankName :: "string option"
  bankPayableAt :: "string option"
  bankAccountNo :: "string option"
  status :: "member_status option"
  statusDate :: "date option"
  deductions :: "string list option"
  photoUrl :: "string option"
  signatureUrl :: "string option"
  societyId :: "string option"

record InsertLoan =
  loanNo :: string
  loanType :: loan_type
  loanDate :: date
  edpNo :: string
  memberName :: string
  loanAmount :: string
  previousLoan :: "string option"
  netLoan :: string
  numberOfInstallments :: int
  installmentAmount :: string
  purpose :: "string option"
  authorizedBy :: "string option"
  paymentMode :: payment_mode
  bankName :: "string option"
  chequeNo :: "string option"
  chequeDate :: "date option"
  share :: "string option"
  cd :: "string option"
  lastSalary :: "string option"
  mwf :: "string option"
  payAmount :: "string option"
  givenSection :: "json option"
  takenSection :: "json option"
  societyId :: "string option"
  isActive :: "bool option"

record InsertVoucher =
  voucherNo :: string
  voucherType :: voucher_type
  voucherDate :: date
  entries :: "VoucherEntry list option"
  totalDebit :: "string option"
  totalCredit :: "string option"
  chequeNo :: "string option"
  chequeDate :: "date option"
  narration :: "string option"
  remarks :: "string option"
  passDate :: "date option"
  societyId :: "string option"
  createdBy :: "string option"
  isActive :: "bool option"

text \<open>
  The database: the rows of the three tables, in insertion order. Each identifier column
  is declared \<open>unique\<close>; that constraint is the one the model enforces on insertion.
\<close>

record Database =
  members :: "InsertMember list"
  loans :: "InsertLoan list"
  vouchers :: "InsertVoucher list"

definition emptyDatabase :: Database where
  "emptyDatabase = \<lparr>members = [], loans = [], vouchers = []\<rparr>"

datatype db_error = UniqueViolation

section \<open>JavaScript strings and numbers\<close>

text \<open>
  A string is the list of its code units; the identifiers of this program are ASCII, and
  the model covers code units below 256. A \<open>number\<close> that holds a counter is either
  \<open>NaN\<close> or an integer: \<open>Num i\<close> is the Number whose value is \<open>i\<close>. Numbers are IEEE
  doubles, so the model agrees with the program as long as the integers stay within
  \<open>2 ^ 53\<close> in absolute value, where parsing, adding 1 and printing are exact.
\<close>

datatype jsnum = NaN | Num int

definition isWhiteSpace :: "char \<Rightarrow> bool" where
  "isWhiteSpace c = (c \<in> set [CHR 0x09, CHR 0x0A, CHR 0x0B, CHR 0x0C, CHR 0x0D, CHR 0x20, CHR 0xA0])"

text \<open>The value of a digit in radix 10 or 16, if the character is one.\<close>

definition digitTable :: "(char \<times> nat) list" where
  "digitTable =
     [(CHR ''0'', 0), (CHR ''1'', 1), (CHR ''2'', 2), (CHR ''3'', 3), (CHR ''4'', 4),
      (CHR ''5'', 5), (CHR ''6'', 6), (CHR ''7'', 7), (CHR ''8'', 8), (CHR ''9'', 9),
      (CHR ''a'', 10), (CHR ''b'', 11), (CHR ''c'', 12), (CHR ''d'', 13), (CHR ''e'', 14),
      (CHR ''f'', 15), (CHR ''A'', 10), (CHR ''B'', 11), (CHR ''C'', 12), (CHR ''D'', 13),
      (CHR ''E'', 14), (CHR ''F'', 15)]"

definition digitValue :: "nat \<Rightarrow> char \<Rightarrow> nat option" where
  "digitValue radix c =
     (case map_of digitTable c of
        None \<Rightarrow> None
      | Some v \<Rightarrow> if v < radix then Some v else None)"

definition isDigit :: "nat \<Rightarrow> char \<Rightarrow> bool" where
  "isDigit radix c = (digitValue radix c \<noteq> None)"

definition mathInt :: "nat \<Rightarrow> string \<Rightarrow> nat" where
  "mathInt radix Z =
     foldl (\<lambda>acc c. acc * radix + (case digitValue radix c of None \<Rightarrow> 0 | Some v \<Rightarrow> v)) 0 Z"

text \<open>
  \<open>parseInt(string)\<close> with no radix argument: leading white space is dropped, a sign is
  read, a \<open>0x\<close> or \<open>0X\<close> prefix selects radix 16, and the longest run of digits is the
  value; with no digit the result is \<open>NaN\<close>. Whatever follows the digits is ignored.
\<close>

definition parseInt :: "string \<Rightarrow> jsnum" where
  "parseInt inputString =
     (let S = dropWhile isWhiteSpace inputString;
          sign = (if take 1 S = ''-'' then - 1 else 1);
          S1 = (if take 1 S = ''+'' \<or> take 1 S = ''-'' then drop 1 S else S);
          hex = (take 2 S1 = ''0x'' \<or> take 2 S1 = ''0X'');
          R = (if hex then 16 else 10);
          S2 = (if hex then drop 2 S1 else S1);
          Z = takeWhile (isDigit R) S2
      in if Z = [] then NaN else Num (sign * int (mathInt R Z)))"

text \<open>\<open>lastNumber + 1\<close>.\<close>

fun plus1 :: "jsnum \<Rightarrow> jsnum" where
  "plus1 NaN = NaN"
| "plus1 (Num i) = Num (i + 1)"

fun digits10 :: "nat \<Rightarrow> string" where
  "digits10 n =
     (if n < 10 then [''0123456789'' ! n]
      else digits10 (n div 10) @ [''0123456789'' ! (n mod 10)])"

declare digits10.simps [simp del]

text \<open>\<open>Number.prototype.toString()\<close> on \<open>NaN\<close> and on integers.\<close>

fun toString :: "jsnum \<Rightarrow> string" where
  "toString NaN = ''NaN''"
| "toString (Num i) = (if i < 0 then CHR ''-'' # digits10 (nat (- i)) else digits10 (nat i))"

text \<open>\<open>s.padStart(targetLength, padString)\<close>.\<close>

definition padStart :: "nat \<Rightarrow> string \<Rightarrow> string \<Rightarrow> string" where
  "padStart targetLength padString s =
     (if targetLength \<le> length s \<or> padString = [] then s
      else take (targetLength - length s)
             (concat (replicate (targetLength - length s) padString)) @ s)"

text \<open>\<open>s.slice(start)\<close>: a negative start counts from the end.\<close>

definition slice :: "int \<Rightarrow> string \<Rightarrow> string" where
  "slice start s =
     (if start < 0 then drop (nat (max (int (length s) + start) 0)) s
      else drop (nat start) s)"

text \<open>\<open>s.charAt(i)\<close>: the empty string when \<open>i\<close> is out of range.\<close>

definition charAt :: "nat \<Rightarrow> string \<Rightarrow> string" where
  "charAt i s = (if i < length s then [s ! i] else [])"

definition toUpperChar :: "char \<Rightarrow> char" where
  "toUpperChar c =
     (case map_of (zip ''abcdefghijklmnopqrstuvwxyz'' ''ABCDEFGHIJKLMNOPQRSTUVWXYZ'') c of
        Some u \<Rightarrow> u
      | None \<Rightarrow> c)"

text \<open>\<open>s.toUpperCase()\<close> on ASCII text, which the names of the voucher types are.\<close>

definition toUpperCase :: "string \<Rightarrow> string" where
  "toUpperCase s = map toUpperChar s"

text \<open>\<open>s.split(sep)\<close> for a separator of one character.\<close>

fun split :: "char \<Rightarrow> string \<Rightarrow> string list" where
  "split sep [] = [[]]"
| "split sep (c # cs) =
     (if c = sep then [] # split sep cs
      else (case split sep cs of
              [] \<Rightarrow> [[c]]
            | x # xs \<Rightarrow> (c # x) # xs))"

text \<open>
  \<open>parts[i]\<close> passed to \<open>parseInt\<close>: an index out of range reads \<open>undefined\<close>, which
  \<open>parseInt\<close> converts to the string \<open>undefined\<close> before parsing.
\<close>

definition parseIntAt :: "string list \<Rightarrow> nat \<Rightarrow> jsnum" where
  "parseIntAt parts i = parseInt (if i < length parts then parts ! i else ''undefined'')"

section \<open>Storage\<close>

text \<open>
  \<^verbatim>\<open>orderBy(desc(column)).limit(1)\<close> over the values of a text column: the greatest
  string, if there is a row. Strings are compared code unit by code unit.
\<close>

definition orderByDescLimit1 :: "string list \<Rightarrow> string list" where
  "orderByDescLimit1 column = take 1 (rev (sort column))"

text \<open>The current year, \<^verbatim>\<open>new Date().getFullYear()\<close>, is a parameter.\<close>

definition yearSuffix :: "int \<Rightarrow> string" where
  "yearSuffix currentYear = slice (- 2) (toString (Num currentYear))"

definition generateMemberNumber :: "Database \<Rightarrow> string" where
  "generateMemberNumber db =
     (let lastMember = orderByDescLimit1 (map memNo (members db)) in
      if length lastMember = 0 then ''MEM_001''
      else
        let lastNumber = parseIntAt (split CHR ''_'' (lastMember ! 0)) 1;
            nextNumber = plus1 lastNumber
        in ''MEM_'' @ padStart 3 ''0'' (toString nextNumber))"

definition generateLoanNumber :: "int \<Rightarrow> Database \<Rightarrow> string" where
  "generateLoanNumber currentYear db =
     (let lastLoan = orderByDescLimit1 (map loanNo (loans db)) in
      if length lastLoan = 0 then ''L'' @ yearSuffix currentYear @ ''001''
      else
        let lastNumber = parseInt (slice 3 (lastLoan ! 0));
            nextNumber = plus1 lastNumber
        in ''L'' @ yearSuffix currentYear @ padStart 3 ''0'' (toString nextNumber))"

text \<open>
  The generator for vouchers reads the last number among the vouchers of the same type.
  Its argument is a value of the column's enumeration.
\<close>

definition generateVoucherNumber :: "int \<Rightarrow> Database \<Rightarrow> voucher_type \<Rightarrow> string" where
  "generateVoucherNumber currentYear db type =
     (let typePrefix = toUpperCase (charAt 0 (voucher_type_name type));
          lastVoucher =
            orderByDescLimit1 (map voucherNo (filter (\<lambda>v. voucherType v = type) (vouchers db)))
      in
      if length lastVoucher = 0 then typePrefix @ yearSuffix currentYear @ ''001''
      else
        let lastNumber = parseInt (slice 3 (lastVoucher ! 0));
            nextNumber = plus1 lastNumber
        in typePrefix @ yearSuffix currentYear @ padStart 3 ''0'' (toString nextNumber))"

text \<open>
  Insertion appends the row, unless its identifier is already in the table: then the
  unique constraint fails the statement and the table is unchanged.
\<close>

definition insertIntoMembers :: "Database \<Rightarrow> InsertMember \<Rightarrow> db_error + InsertMember \<times> Database" where
  "insertIntoMembers db row =
     (if memNo row \<in> set (map memNo (members db)) then Inl UniqueViolation
      else Inr (row, db\<lparr>members := members db @ [row]\<rparr>))"


definition insertIntoVouchers :: "Database \<Rightarrow> InsertVoucher \<Rightarrow> db_error + InsertVoucher \<times> Database" where
  "insertIntoVouchers db row =
     (if voucherNo row \<in> set (map voucherNo (vouchers db)) then Inl UniqueViolation
      else Inr (row, db\<lparr>vouchers := vouchers db @ [row]\<rparr>))"

text \<open>
  The create operations return the calls they make, in order, with their result. A call
  is recorded where it is made: \<open>called c x\<close> is the call \<open>c\<close> returning \<open>x\<close>, \<open>returning x\<close>
  makes no call, and \<open>andThen\<close> runs one computation after another.
\<close>

datatype storage_call = CallGenerateNumber | CallInsert

type_synonym 'a traced = "storage_call list \<times> 'a"

definition returning :: "'a \<Rightarrow> 'a traced" where
  "returning x = ([], x)"

definition called :: "storage_call \<Rightarrow> 'a \<Rightarrow> 'a traced" where
  "called c x = ([c], x)"

definition andThen :: "'a traced \<Rightarrow> ('a \<Rightarrow> 'b traced) \<Rightarrow> 'b traced" where
  "andThen m f =
     (case m of (calls, x) \<Rightarrow> (case f x of (calls', y) \<Rightarrow> (calls @ calls', y)))"

text \<open>
  \<^verbatim>\<open>const memNo = insertMember.memNo || await this.generateMemberNumber();\<close> followed by
  \<^verbatim>\<open>db.insert(members).values({ ...insertMember, memNo }).returning()\<close>. An empty identifier
  is falsy: it is the case of no identifier supplied. The statement sent to the database
  is the parameter \<open>insertValues\<close>; the operation returns what it returns.
\<close>

definition createMemberWith ::
  "(InsertMember \<Rightarrow> 'r) \<Rightarrow> Database \<Rightarrow> InsertMember \<Rightarrow> 'r traced" where
  "createMemberWith insertValues db insertMember =
     andThen
       (if memNo insertMember \<noteq> [] then returning (memNo insertMember)
        else called CallGenerateNumber (generateMemberNumber db))
       (\<lambda>memNo'. called CallInsert (insertValues (insertMember\<lparr>memNo := memNo'\<rparr>)))"


definition createVoucherWith ::
  "(InsertVoucher \<Rightarrow> 'r) \<Rightarrow> int \<Rightarrow> Database \<Rightarrow> InsertVoucher \<Rightarrow> 'r traced" where
  "createVoucherWith insertValues currentYear db insertVoucher =
     andThen
       (if voucherNo insertVoucher \<noteq> [] then returning (voucherNo insertVoucher)
        else called CallGenerateNumber
               (generateVoucherNumber currentYear db (voucherType insertVoucher)))
       (\<lambda>voucherNo'.
          called CallInsert (insertValues (insertVoucher\<lparr>voucherNo := voucherNo'\<rparr>)))"

text \<open>The create operations on the database of the model.\<close>

definition createMember ::
  "Database \<Rightarrow> InsertMember \<Rightarrow> storage_call list \<times> (db_error + InsertMember \<times> Database)" where
  "createMember db insertMember = createMemberWith (insertIntoMembers db) db insertMember"


definition createVoucher ::
  "int \<Rightarrow> Database \<Rightarrow> InsertVoucher \<Rightarrow>
     storage_call list \<times> (db_error + InsertVoucher \<times> Database)" where
  "createVoucher currentYear db insertVoucher =
     createVoucherWith (insertIntoVouchers db) currentYear db insertVoucher"

section \<open>Routes\<close>

text \<open>
  The bodies of the handlers of \<open>POST /api/members\<close> and \<open>POST /api/vouchers\<close>, reached
  once authentication and the role check have passed. The schema's \<open>parse\<close> is a
  parameter: it returns the insert record or throws (\<open>None\<close>). Whatever is thrown inside
  the \<open>try\<close> block is answered with status 500.
\<close>

datatype 'a response = Created 'a | ServerError string

fun statusCode :: "'a response \<Rightarrow> nat" where
  "statusCode (Created row) = 201"
| "statusCode (ServerError message) = 500"

definition postMembers ::
  "('b \<Rightarrow> InsertMember option) \<Rightarrow> Database \<Rightarrow> 'b \<Rightarrow> InsertMember response \<times> Database" where
  "postMembers parse db body =
     (case parse body of
        None \<Rightarrow> (ServerError ''Failed to create member'', db)
      | Some memberData \<Rightarrow>
          (case snd (createMember db memberData) of
             Inl e \<Rightarrow> (ServerError ''Failed to create member'', db)
           | Inr (member, db') \<Rightarrow> (Created member, db')))"

definition postVouchers ::
  "('b \<Rightarrow> InsertVoucher option) \<Rightarrow> int \<Rightarrow> Database \<Rightarrow> 'b \<Rightarrow>
     InsertVoucher response \<times> Database" where
  "postVouchers parse currentYear db body =
     (case parse body of
        None \<Rightarrow> (ServerError ''Failed to create voucher'', db)
      | Some voucherData \<Rightarrow>
          (case snd (createVoucher currentYear db voucherData) of
             Inl e \<Rightarrow> (ServerError ''Failed to create voucher'', db)
           | Inr (voucher, db') \<Rightarrow> (Created voucher, db')))"

section \<open>Request bodies and the voucher schema\<close>






section \<open>Voucher form: entry list and balancer\<close>

datatype entry_type = Debit | Credit

text \<open>The entry being typed in (\<open>currentEntry\<close> of the form).\<close>

record CurrentEntry =
  cur_particulars :: string
  cur_debit :: amount
  cur_credit :: amount
  cur_type :: entry_type
  cur_amount :: amount

record VoucherForm =
  entries :: "VoucherEntry list"
  currentEntry :: CurrentEntry

definition blankEntry :: CurrentEntry where
  "blankEntry =
     \<lparr>cur_particulars = [], cur_debit = 0, cur_credit = 0, cur_type = Debit, cur_amount = 0\<rparr>"

definition initialForm :: VoucherForm where
  "initialForm = \<lparr>entries = [], currentEntry = blankEntry\<rparr>"

text \<open>
  \<open>addEntry\<close> returns the toast it shows, if any, and the next state. An empty
  \<open>particulars\<close> is falsy: the function shows an error and changes nothing.
\<close>

definition addEntry :: "VoucherForm \<Rightarrow> string option \<times> VoucherForm" where
  "addEntry s =
     (let cur = currentEntry s in
      if cur_particulars cur = [] then (Some ''Please enter particulars'', s)
      else
        let newEntry =
              \<lparr>particulars = cur_particulars cur,
               debit = (if cur_type cur = Debit then cur_amount cur else 0),
               credit = (if cur_type cur = Credit then cur_amount cur else 0)\<rparr>
        in (None, s\<lparr>entries := entries s @ [newEntry], currentEntry := blankEntry\<rparr>))"

text \<open>\<^verbatim>\<open>entries.filter((_, i) => i !== index)\<close>, with the index counted from 0.\<close>

fun filter_index :: "nat \<Rightarrow> nat \<Rightarrow> 'a list \<Rightarrow> 'a list" where
  "filter_index i index [] = []"
| "filter_index i index (x # xs) =
     (if i \<noteq> index then x # filter_index (Suc i) index xs
      else filter_index (Suc i) index xs)"

definition removeEntry :: "nat \<Rightarrow> VoucherForm \<Rightarrow> VoucherForm" where
  "removeEntry index s = s\<lparr>entries := filter_index 0 index (entries s)\<rparr>"

text \<open>The three input handlers of the entry form.\<close>

definition setType :: "entry_type \<Rightarrow> VoucherForm \<Rightarrow> VoucherForm" where
  "setType t s = s\<lparr>currentEntry := (currentEntry s)\<lparr>cur_type := t\<rparr>\<rparr>"

definition setAmount :: "amount \<Rightarrow> VoucherForm \<Rightarrow> VoucherForm" where
  "setAmount a s = s\<lparr>currentEntry := (currentEntry s)\<lparr>cur_amount := a\<rparr>\<rparr>"

definition setParticulars :: "string \<Rightarrow> VoucherForm \<Rightarrow> VoucherForm" where
  "setParticulars p s = s\<lparr>currentEntry := (currentEntry s)\<lparr>cur_particulars := p\<rparr>\<rparr>"

text \<open>The states of the form that are built from the empty form by these operations.\<close>

inductive reachable :: "VoucherForm \<Rightarrow> bool" where
  init: "reachable initialForm"
| set_type: "reachable s \<Longrightarrow> reachable (setType t s)"
| set_amount: "reachable s \<Longrightarrow> reachable (setAmount a s)"
| set_particulars: "reachable s \<Longrightarrow> reachable (setParticulars p s)"
| add: "reachable s \<Longrightarrow> reachable (snd (addEntry s))"
| remove: "reachable s \<Longrightarrow> reachable (removeEntry i s)"

definition singleSided :: "VoucherEntry \<Rightarrow> bool" where
  "singleSided e = (debit e = 0 \<or> credit e = 0)"

text \<open>
  \<open>calculateTotals\<close>: two \<open>reduce\<close> calls, each a left fold from 0. The pair is
  \<open>(totalDebit, totalCredit)\<close>; the two variables are primed below, where the names
  are also columns of the voucher table.
\<close>

definition calculateTotals :: "VoucherEntry list \<Rightarrow> amount \<times> amount" where
  "calculateTotals es =
     (foldl (\<lambda>sum entry. add sum (debit entry)) 0 es,
      foldl (\<lambda>sum entry. add sum (credit entry)) 0 es)"

definition isBalanced :: "VoucherEntry list \<Rightarrow> bool" where
  "isBalanced es =
     (case calculateTotals es of
        (totalDebit', totalCredit') \<Rightarrow>
          strictEquals totalDebit' totalCredit' \<and> greaterThan totalDebit' 0)"




section \<open>Example data\<close>

text \<open>A form state used as an example: type credit, amount 250, particulars given.\<close>

definition exampleForm :: VoucherForm where
  "exampleForm = setType Credit (setAmount (Finite 250) (setParticulars ''Bank'' initialForm))"


text \<open>A member row and a voucher row with the given identifier, the optional columns empty.\<close>

definition memberRow :: "string \<Rightarrow> InsertMember" where
  "memberRow n =
     \<lparr>memNo = n, name = ''A. Member'', fatherHusbandName = None, officeAddress = None,
      city = None, phoneOffice = None, branch = None, phoneResidence = None, mobile = None,
      designation = None, residenceAddress = None, dateOfBirth = None,
      dateOfJoiningSociety = None, email = None, dateOfJoiningOrg = None,
      dateOfRetirement = None, nominee = None, nomineeRelation = None,
      openingBalanceShare = None, openingBalanceType = None, InsertMember.bankName = None,
      bankPayableAt = None, bankAccountNo = None, status = None, statusDate = None,
      deductions = None, photoUrl = None, signatureUrl = None,
      InsertMember.societyId = None\<rparr>"

definition loanRow :: "string \<Rightarrow> InsertLoan" where
  "loanRow n =
     \<lparr>loanNo = n, loanType = general, loanDate = 0, edpNo = ''EDP000001'',
      memberName = ''A. Member'', loanAmount = ''50000'', previousLoan = None,
      netLoan = ''50000'', numberOfInstallments = 10, installmentAmount = ''5000'',
      purpose = None, authorizedBy = None, paymentMode = mode_cash,
      InsertLoan.bankName = None, InsertLoan.chequeNo = None, InsertLoan.chequeDate = None,
      share = None, cd = None, lastSalary = None, mwf = None, payAmount = None,
      givenSection = None, takenSection = None, InsertLoan.societyId = None,
      InsertLoan.isActive = None\<rparr>"

definition voucherRow :: "string \<Rightarrow> voucher_type \<Rightarrow> VoucherEntry list \<Rightarrow> InsertVoucher" where
  "voucherRow n t es =
     \<lparr>voucherNo = n, voucherType = t, voucherDate = 0, InsertVoucher.entries = Some es,
      totalDebit = None, totalCredit = None, chequeNo = None, chequeDate = None,
      narration = None, remarks = None, passDate = None, societyId = None,
      createdBy = None, isActive = None\<rparr>"

text \<open>The balanced entries of the specification's scenario: debit 100, credit 100.\<close>

definition balancedEntries :: "VoucherEntry list" where
  "balancedEntries =
     [\<lparr>particulars = ''Cash'', debit = Finite 100, credit = 0\<rparr>,
      \<lparr>particulars = ''Bank'', debit = 0, credit = Finite 100\<rparr>]"

text \<open>The unbalanced entries of the specification's scenario: debit 100, credit 50.\<close>

definition unbalancedEntries :: "VoucherEntry list" where
  "unbalancedEntries =
     [\<lparr>particulars = ''Cash'', debit = Finite 100, credit = 0\<rparr>,
      \<lparr>particulars = ''Bank'', debit = 0, credit = Finite 50\<rparr>]"

text \<open>
  Entries that the form can build with amounts at the limit of exact whole numbers: two
  debits, \<open>2^53\<close> and 1, and one credit of \<open>2^53\<close>.
\<close>

definition largeEntries :: "VoucherEntry list" where
  "largeEntries =
     [\<lparr>particulars = ''Cash'', debit = Finite (2 ^ 53), credit = 0\<rparr>,
      \<lparr>particulars = ''Fees'', debit = Finite 1, credit = 0\<rparr>,
      \<lparr>particulars = ''Bank'', debit = 0, credit = Finite (2 ^ 53)\<rparr>]"



text \<open>
  Databases that hold member rows, or loan rows, with the given identifiers, or the given
  voucher rows.
\<close>

definition dbWithMembers :: "string list \<Rightarrow> Database" where
  "dbWithMembers ns = emptyDatabase\<lparr>members := map memberRow ns\<rparr>"

definition dbWithLoans :: "string list \<Rightarrow> Database" where
  "dbWithLoans ns = emptyDatabase\<lparr>loans := map loanRow ns\<rparr>"

definition dbWithVouchers :: "InsertVoucher list \<Rightarrow> Database" where
  "dbWithVouchers rows = emptyDatabase\<lparr>vouchers := rows\<rparr>"

section \<open>Notions used in the statements\<close>

text \<open>
  The rational that a finite number denotes, and the exact sums of the debit and of the
  credit fields of a list of entries.
\<close>

fun exactValue :: "double \<Rightarrow> rat" where
  "exactValue (Finite a) = a"
| "exactValue x = 0"

definition sumDebit :: "VoucherEntry list \<Rightarrow> rat" where
  "sumDebit es = sum_list (map (\<lambda>e. exactValue (debit e)) es)"

definition sumCredit :: "VoucherEntry list \<Rightarrow> rat" where
  "sumCredit es = sum_list (map (\<lambda>e. exactValue (credit e)) es)"

text \<open>An amount that is a whole number, zero or more.\<close>

definition wholeAmount :: "double \<Rightarrow> bool" where
  "wholeAmount x =
     (case x of Finite a \<Rightarrow> 0 \<le> a \<and> of_int \<lfloor>a\<rfloor> = a | _ \<Rightarrow> False)"

text \<open>A number that is a double: rounding leaves it as it is.\<close>

definition isDouble :: "double \<Rightarrow> bool" where
  "isDouble x = (case x of Finite a \<Rightarrow> roundDouble a = Finite a | _ \<Rightarrow> True)"

text \<open>A decimal digit.\<close>

definition isDecimal :: "char \<Rightarrow> bool" where
  "isDecimal c = (c \<in> set ''0123456789'')"

text \<open>
  The loan numbers of the database that begin with \<open>L\<close> and the two digits of the given
  year.
\<close>

definition hasPrefix :: "string \<Rightarrow> string \<Rightarrow> bool" where
  "hasPrefix p s = (take (length p) s = p)"

definition loansOfYear :: "int \<Rightarrow> Database \<Rightarrow> string list" where
  "loansOfYear currentYear db =
     filter (hasPrefix (''L'' @ yearSuffix currentYear)) (map loanNo (loans db))"

text \<open>
  A text in which \<open>parseInt\<close> finds no number: it is empty, or its first character is
  neither white space, nor a sign, nor a decimal digit.
\<close>

definition noNumber :: "string \<Rightarrow> bool" where
  "noNumber s =
     (case s of
        [] \<Rightarrow> True
      | c # cs \<Rightarrow> \<not> isWhiteSpace c \<and> c \<noteq> CHR ''+'' \<and> c \<noteq> CHR ''-'' \<and> \<not> isDigit 10 c)"

text \<open>The voucher numbers stored for a given voucher type.\<close>

definition voucherNosOfType :: "voucher_type \<Rightarrow> Database \<Rightarrow> string list" where
  "voucherNosOfType t db = map voucherNo (filter (\<lambda>v. voucherType v = t) (vouchers db))"

text \<open>
  The database after \<open>k\<close> requests to create a member without a number, one after the
  other; a request that is refused leaves the database as it was.
\<close>

primrec autoCreateMembers :: "nat \<Rightarrow> Database \<Rightarrow> Database" where
  "autoCreateMembers 0 db = db"
| "autoCreateMembers (Suc k) db =
     snd (postMembers Some (autoCreateMembers k db) (memberRow []))"

text \<open>The member number with the counter \<open>i\<close>, padded to three digits.\<close>

definition paddedMemberNumber :: "nat \<Rightarrow> string" where
  "paddedMemberNumber i = ''MEM_'' @ padStart 3 ''0'' (digits10 i)"

section \<open>Properties of the numbers\<close>

subsection \<open>Bit length\<close>

lemma bitLength_nonpos: "n \<le> 0 \<Longrightarrow> bitLength n = 0"
  by (simp add: bitLength.simps [of n])

lemma bitLength_pos: "0 < n \<Longrightarrow> bitLength n = 1 + bitLength (n div 2)"
  by (simp add: bitLength.simps [of n])

lemma bitLength_bounds:
  "0 < n \<Longrightarrow> 0 < bitLength n \<and> 2 ^ nat (bitLength n - 1) \<le> n \<and> n < 2 ^ nat (bitLength n)"
proof (induction n rule: bitLength.induct)
  case (1 n)
  show ?case
  proof (cases "n div 2 = 0")
    case True
    with \<open>0 < n\<close> have n1: "n = 1" by presburger
    have "bitLength 1 = 1" by (simp add: bitLength_pos bitLength_nonpos)
    with n1 show ?thesis by simp
  next
    case False
    with \<open>0 < n\<close> have h: "0 < n div 2" by presburger
    from \<open>0 < n\<close> have "\<not> n \<le> 0" by simp
    from "1.IH" [OF this h] have b: "0 < bitLength (n div 2)"
      and lo: "2 ^ nat (bitLength (n div 2) - 1) \<le> n div 2"
      and hi: "n div 2 < 2 ^ nat (bitLength (n div 2))" by simp_all
    define k where "k = nat (bitLength (n div 2) - 1)"
    from b have bk: "bitLength (n div 2) = int k + 1" by (simp add: k_def)
    have bn: "bitLength n = int k + 2" using bitLength_pos [OF \<open>0 < n\<close>] bk by simp
    from lo have lo': "(2::int) ^ k \<le> n div 2" by (simp add: k_def)
    from hi bk have hi': "n div 2 < (2::int) ^ Suc k" by (simp add: nat_add_distrib)
    have "(2::int) ^ Suc k \<le> 2 * (n div 2)" using lo' by simp
    also have "\<dots> \<le> n" by presburger
    finally have A: "(2::int) ^ Suc k \<le> n" .
    have "n \<le> 2 * (n div 2) + 1" by presburger
    also have "\<dots> < 2 * 2 ^ Suc k" using hi' by linarith
    finally have B: "n < (2::int) ^ Suc (Suc k)" by simp
    have n1: "nat (bitLength n - 1) = Suc k" and n2: "nat (bitLength n) = Suc (Suc k)"
      using bn by simp_all
    show ?thesis unfolding n1 n2 using A B bn by simp
  qed
qed

lemma bitLength_unique:
  assumes "(2::int) ^ k \<le> n" and "n < 2 ^ Suc k"
  shows "bitLength n = int k + 1"
proof -
  have pos: "0 < n" using assms(1) by (smt (verit) zero_less_power)
  note b = bitLength_bounds [OF pos]
  define j where "j = nat (bitLength n - 1)"
  from b have bj: "bitLength n = int j + 1" by (simp add: j_def)
  from b have lo: "(2::int) ^ j \<le> n" by (simp add: j_def)
  from b bj have hi: "n < (2::int) ^ Suc j" by (simp add: nat_add_distrib)
  have "(2::int) ^ j < 2 ^ Suc k" using lo assms(2) by linarith
  then have "j < Suc k" by (simp only: power_strict_increasing_iff [of 2] one_less_numeral_iff semiring_norm)
  moreover have "(2::int) ^ k < 2 ^ Suc j" using hi assms(1) by linarith
  then have "k < Suc j" by (simp only: power_strict_increasing_iff [of 2] one_less_numeral_iff semiring_norm)
  ultimately have "j = k" by simp
  with bj show ?thesis by simp
qed

subsection \<open>Powers of two\<close>

lemma pow2_powi: "pow2 e = 2 powi e"
  by (simp add: pow2_def power_int_def inverse_eq_divide power_one_over)

lemma pow2_pos: "0 < pow2 e"
  by (simp add: pow2_def)

lemma pow2_add: "pow2 (i + j) = pow2 i * pow2 j"
  by (simp add: pow2_powi power_int_add)

lemma pow2_nat: "pow2 (int n) = 2 ^ n"
  by (simp add: pow2_def)

lemma pow2_mono: "i \<le> j \<Longrightarrow> pow2 i \<le> pow2 j"
  by (simp add: pow2_powi power_int_increasing)

lemma pow2_strict_mono_iff: "pow2 i < pow2 j \<longleftrightarrow> i < j"
proof
  assume "pow2 i < pow2 j"
  show "i < j"
  proof (rule ccontr)
    assume "\<not> i < j"
    then have "pow2 j \<le> pow2 i" by (simp add: pow2_mono)
    with \<open>pow2 i < pow2 j\<close> show False by simp
  qed
next
  assume "i < j"
  then show "pow2 i < pow2 j" by (simp add: pow2_powi power_int_strict_increasing)
qed

subsection \<open>The binary exponent\<close>

lemma floorLog2_bounds:
  assumes "0 < x"
  shows "pow2 (floorLog2 x) \<le> x \<and> x < pow2 (floorLog2 x + 1)"
proof (cases "1 \<le> x")
  case True
  then have pos: "0 < \<lfloor>x\<rfloor>" by linarith
  note b = bitLength_bounds [OF pos]
  define k where "k = nat (bitLength \<lfloor>x\<rfloor> - 1)"
  from b have bk: "bitLength \<lfloor>x\<rfloor> = int k + 1" by (simp add: k_def)
  from b have lo: "(2::int) ^ k \<le> \<lfloor>x\<rfloor>" by (simp add: k_def)
  from b bk have hi: "\<lfloor>x\<rfloor> < (2::int) ^ Suc k" by (simp add: nat_add_distrib)
  have fl: "floorLog2 x = int k" using True bk by (simp add: floorLog2_def)
  have "(2::rat) ^ k = of_int (2 ^ k)" by simp
  also have "\<dots> \<le> of_int \<lfloor>x\<rfloor>" using lo by (simp only: of_int_le_iff)
  also have "\<dots> \<le> x" by simp
  finally have A: "2 ^ k \<le> x" .
  have "x < of_int (\<lfloor>x\<rfloor> + 1)" by linarith
  also have "\<dots> \<le> of_int (2 ^ Suc k)"
  proof -
    have "\<lfloor>x\<rfloor> + 1 \<le> 2 ^ Suc k" using hi by simp
    then show ?thesis by (simp only: of_int_le_iff)
  qed
  finally have B: "x < 2 ^ Suc k" by simp
  have p1: "pow2 (int k) = 2 ^ k" by (rule pow2_nat)
  have p2: "pow2 (int k + 1) = 2 ^ Suc k" using pow2_nat [of "Suc k"] by (simp add: add.commute)
  show ?thesis unfolding fl p1 p2 using A B by simp
next
  case False
  then have x1: "x < 1" by simp
  define y where "y = 1 / x"
  have y1: "1 < y" using assms x1 by (simp add: y_def)
  then have pos: "0 < \<lceil>y\<rceil> - 1" by linarith
  note b = bitLength_bounds [OF pos]
  define k where "k = nat (bitLength (\<lceil>y\<rceil> - 1) - 1)"
  from b have bk: "bitLength (\<lceil>y\<rceil> - 1) = int k + 1" by (simp add: k_def)
  from b have lo: "(2::int) ^ k \<le> \<lceil>y\<rceil> - 1" by (simp add: k_def)
  from b bk have hi: "\<lceil>y\<rceil> - 1 < (2::int) ^ Suc k" by (simp add: nat_add_distrib)
  have fl: "floorLog2 x = - (int k + 1)" using False bk by (simp add: floorLog2_def y_def)
  have "of_int ((2::int) ^ k) < y"
  proof -
    have "(2::int) ^ k < \<lceil>y\<rceil>" using lo by simp
    then show ?thesis by (simp only: less_ceiling_iff)
  qed
  then have A: "2 ^ k < y" by simp
  have "\<lceil>y\<rceil> \<le> (2::int) ^ Suc k" using hi by simp
  then have "y \<le> of_int ((2::int) ^ Suc k)" by (simp only: ceiling_le_iff)
  then have B: "y \<le> 2 ^ Suc k" by simp
  have xy: "x = 1 / y" by (simp add: y_def)
  have ypos: "0 < y" using y1 by simp
  have p1: "pow2 (- (int k + 1)) = 1 / 2 ^ Suc k" by (simp add: pow2_def nat_add_distrib)
  have p2: "pow2 (- (int k + 1) + 1) = 1 / 2 ^ k" by (cases k) (simp_all add: pow2_def nat_add_distrib)
  have C: "1 / 2 ^ Suc k \<le> x" unfolding xy using B ypos by (simp add: field_simps)
  have D: "x < 1 / 2 ^ k" unfolding xy using A ypos by (simp add: field_simps)
  show ?thesis unfolding fl p1 p2 using C D by simp
qed

lemma floorLog2_unique:
  assumes "pow2 k \<le> x" and "x < pow2 (k + 1)"
  shows "floorLog2 x = k"
proof -
  have pos: "0 < x" using assms(1) pow2_pos [of k] by linarith
  note b = floorLog2_bounds [OF pos]
  have "pow2 (floorLog2 x) < pow2 (k + 1)" using b assms(2) by linarith
  then have "floorLog2 x < k + 1" by (simp only: pow2_strict_mono_iff)
  moreover have "pow2 k < pow2 (floorLog2 x + 1)" using b assms(1) by linarith
  then have "k < floorLog2 x + 1" by (simp only: pow2_strict_mono_iff)
  ultimately show ?thesis by simp
qed

subsection \<open>Rounding to an integer\<close>

lemma roundHalfEven_of_int: "roundHalfEven (of_int k) = k"
  by (simp add: roundHalfEven_def)


subsection \<open>Rounding to a double\<close>



lemma roundDouble_exact:
  assumes x: "x = of_int j * pow2 e0"
    and e0: "max (floorLog2 \<bar>x\<bar> - 52) (- 1074) \<le> e0"
    and fin: "\<bar>x\<bar> < 2 ^ 1024"
  shows "roundDouble x = Finite x"
proof (cases "x = 0")
  case True
  then show ?thesis by (simp add: roundDouble_def)
next
  case False
  define a where "a = \<bar>x\<bar>"
  define e where "e = max (floorLog2 a - 52) (- 1074)"
  define n where "n = nat (e0 - e)"
  have le: "e \<le> e0" using e0 by (simp add: e_def a_def)
  then have e0e: "e0 = int n + e" by (simp add: n_def)
  have pe: "0 < pow2 e" by (rule pow2_pos)
  have "a = of_int \<bar>j\<bar> * pow2 e0"
    using pow2_pos [of e0] by (simp add: a_def x abs_mult)
  also have "pow2 e0 = 2 ^ n * pow2 e" unfolding e0e by (simp only: pow2_add pow2_nat)
  finally have "a / pow2 e = of_int \<bar>j\<bar> * 2 ^ n" using pe by simp
  also have "\<dots> = of_int (\<bar>j\<bar> * 2 ^ n)" by simp
  finally have m: "a / pow2 e = of_int (\<bar>j\<bar> * 2 ^ n)" .
  have "of_int (roundHalfEven (a / pow2 e)) * pow2 e = a / pow2 e * pow2 e"
    unfolding m by (simp only: roundHalfEven_of_int)
  also have "\<dots> = a" using pe by simp
  finally have r0: "of_int (roundHalfEven (a / pow2 e)) * pow2 e = a" .
  have "roundDouble x =
      (if 2 ^ 1024 \<le> a then (if 0 < x then Infinity else NegInfinity)
       else Finite (if 0 < x then a else - a))"
    using False r0 by (simp add: roundDouble_def Let_def a_def [symmetric] e_def [symmetric])
  also have "\<dots> = Finite (if 0 < x then a else - a)" using fin by (simp add: a_def)
  also have "(if 0 < x then a else - a) = x" by (simp add: a_def)
  finally show ?thesis .
qed

lemma roundDouble_of_int:
  assumes "\<bar>k\<bar> \<le> 2 ^ 53"
  shows "roundDouble (of_int k) = Finite (of_int k)"
proof (cases "k = 0")
  case True
  then show ?thesis by (simp add: roundDouble_def)
next
  case False
  define a :: rat where "a = \<bar>of_int k\<bar>"
  have a1: "1 \<le> a"
  proof -
    have "1 \<le> \<bar>k\<bar>" using False by simp
    then have "(of_int 1 :: rat) \<le> of_int \<bar>k\<bar>" by (simp only: of_int_le_iff)
    then show ?thesis by (simp add: a_def)
  qed
  have a53: "a \<le> 2 ^ 53"
  proof -
    have "(of_int \<bar>k\<bar> :: rat) \<le> of_int (2 ^ 53)" using assms by (simp only: of_int_le_iff)
    then show ?thesis by (simp add: a_def)
  qed
  have fin: "\<bar>of_int k :: rat\<bar> < 2 ^ 1024"
  proof -
    have "(2::rat) ^ 53 < 2 ^ 1024" by (rule power_strict_increasing) simp_all
    with a53 show ?thesis by (simp add: a_def)
  qed
  show ?thesis
  proof (cases "a < 2 ^ 53")
    case True
    have "pow2 (floorLog2 a) \<le> a" using floorLog2_bounds [of a] a1 by simp
    with True have "pow2 (floorLog2 a) < pow2 53" by (simp add: pow2_def)
    then have "floorLog2 a < 53" by (simp only: pow2_strict_mono_iff)
    then have E: "max (floorLog2 \<bar>of_int k :: rat\<bar> - 52) (- 1074) \<le> 0" by (simp add: a_def)
    have X: "(of_int k :: rat) = of_int k * pow2 0" by (simp add: pow2_def)
    show ?thesis by (rule roundDouble_exact [OF X E fin])
  next
    case False
    with a53 have a: "a = 2 ^ 53" by simp
    have "pow2 53 \<le> a" "a < pow2 (53 + 1)" by (simp_all add: a pow2_def)
    then have "floorLog2 a = 53" by (rule floorLog2_unique)
    then have E: "max (floorLog2 \<bar>of_int k :: rat\<bar> - 52) (- 1074) \<le> 1" by (simp add: a_def)
    have X: "(of_int k :: rat) = of_int (k div 2) * pow2 1"
    proof -
      have "\<bar>of_int k :: rat\<bar> = of_int (2 ^ 53)" using a by (simp add: a_def)
      then have "\<bar>k\<bar> = 2 ^ 53" by (simp only: of_int_abs [symmetric] of_int_eq_iff)
      then have "even k" by (metis even_abs_add_iff even_add even_numeral even_power zero_less_numeral)
      then have "k = k div 2 * 2" by simp
      then have "(of_int k :: rat) = of_int (k div 2 * 2)" by simp
      then show ?thesis by (simp add: pow2_def)
    qed
    show ?thesis by (rule roundDouble_exact [OF X E fin])
  qed
qed

subsection \<open>Evaluation\<close>

lemma floor_rat_numeral_div: "\<lfloor>numeral a / numeral b :: rat\<rfloor> = numeral a div numeral b"
proof -
  have "\<lfloor>of_int (numeral a) / of_int (numeral b) :: rat\<rfloor> = numeral a div numeral b"
    by (rule floor_divide_of_int_eq)
  then show ?thesis by simp
qed

lemma ceiling_rat_numeral_div: "\<lceil>numeral a / numeral b :: rat\<rceil> = - (- numeral a div numeral b)"
proof -
  have "\<lfloor>of_int (- numeral a) / of_int (numeral b) :: rat\<rfloor> = - numeral a div numeral b"
    by (rule floor_divide_of_int_eq)
  then show ?thesis by (simp add: ceiling_def)
qed

lemma floor_rat_one_div: "\<lfloor>1 / numeral b :: rat\<rfloor> = 1 div numeral b"
proof -
  have "\<lfloor>of_int 1 / of_int (numeral b) :: rat\<rfloor> = 1 div numeral b"
    by (rule floor_divide_of_int_eq)
  then show ?thesis by simp
qed

lemma bitLength_numeral:
  "bitLength 0 = 0"
  "bitLength 1 = 1"
  "bitLength (- numeral k) = 0"
  "bitLength (numeral k) = 1 + bitLength (numeral k div 2)"
  by (simp_all add: bitLength_pos bitLength_nonpos)

lemmas round_eval =
  roundDouble_def floorLog2_def bitLength_numeral pow2_def roundHalfEven_def Let_def
  floor_rat_numeral_div ceiling_rat_numeral_div floor_rat_one_div


section \<open>Properties of the loan calculator\<close>














lemma isDouble_small:
  "isDouble (Finite 50000)" "isDouble (Finite 11)" "isDouble (Finite (1 / 2))"
  "isDouble (Finite 2)" "isDouble (Finite 1)" "isDouble 0"
  by (simp_all add: isDouble_def zero_double_def round_eval)


section \<open>Properties of the voucher balancer\<close>

lemma wholeAmount_Finite:
  "wholeAmount x \<Longrightarrow> \<exists>k. 0 \<le> k \<and> x = Finite (of_int k)"
proof (cases x)
  case (Finite a)
  assume "wholeAmount x"
  with Finite have a: "0 \<le> a" and f: "of_int \<lfloor>a\<rfloor> = a" by (simp_all add: wholeAmount_def)
  from a have "0 \<le> \<lfloor>a\<rfloor>" by simp
  moreover from Finite have "x = Finite (of_int \<lfloor>a\<rfloor>)" by (simp only: f)
  ultimately show ?thesis by blast
qed (simp_all add: wholeAmount_def)

lemma whole_sum_nonneg:
  "\<forall>e\<in>set es. wholeAmount (f e) \<Longrightarrow> 0 \<le> sum_list (map (\<lambda>e. exactValue (f e)) es)"
proof (induction es)
  case Nil
  show ?case by simp
next
  case (Cons e es)
  then obtain k where "0 \<le> k" and "f e = Finite (of_int k)"
    using wholeAmount_Finite [of "f e"] by auto
  with Cons show ?case by simp
qed

lemma foldl_add_whole:
  assumes "\<forall>e\<in>set es. wholeAmount (f e)"
    and "0 \<le> j"
    and "of_int j + sum_list (map (\<lambda>e. exactValue (f e)) es) \<le> 2 ^ 53"
  shows "foldl (\<lambda>sum entry. add sum (f entry)) (Finite (of_int j)) es =
     Finite (of_int j + sum_list (map (\<lambda>e. exactValue (f e)) es))"
  using assms
proof (induction es arbitrary: j)
  case Nil
  show ?case by simp
next
  case (Cons e es)
  from Cons.prems(1) obtain k where k: "0 \<le> k" and fe: "f e = Finite (of_int k)"
    using wholeAmount_Finite [of "f e"] by auto
  from Cons.prems(1) have rest: "0 \<le> sum_list (map (\<lambda>e. exactValue (f e)) es)"
    by (intro whole_sum_nonneg) simp
  from Cons.prems(3) fe rest have "(of_int (j + k) :: rat) \<le> 2 ^ 53" by simp
  then have "(of_int (j + k) :: rat) \<le> of_int (2 ^ 53)" by simp
  then have "j + k \<le> 2 ^ 53" by (simp only: of_int_le_iff)
  with k Cons.prems(2) have "\<bar>j + k\<bar> \<le> 2 ^ 53" by simp
  then have r: "roundDouble (of_int (j + k)) = Finite (of_int (j + k))"
    by (rule roundDouble_of_int)
  have step: "add (Finite (of_int j)) (f e) = Finite (of_int (j + k))"
    using r by (simp add: fe)
  have "foldl (\<lambda>sum entry. add sum (f entry)) (Finite (of_int (j + k))) es =
     Finite (of_int (j + k) + sum_list (map (\<lambda>e. exactValue (f e)) es))"
  proof (rule Cons.IH)
    show "\<forall>e\<in>set es. wholeAmount (f e)" using Cons.prems(1) by simp
    show "0 \<le> j + k" using k Cons.prems(2) by simp
    show "of_int (j + k) + sum_list (map (\<lambda>e. exactValue (f e)) es) \<le> 2 ^ 53"
      using Cons.prems(3) fe by simp
  qed
  then show ?case using step fe by simp
qed

lemma calculateTotals_whole:
  assumes "\<forall>e\<in>set es. wholeAmount (debit e) \<and> wholeAmount (credit e)"
    and "sumDebit es \<le> 2 ^ 53" and "sumCredit es \<le> 2 ^ 53"
  shows "calculateTotals es = (Finite (sumDebit es), Finite (sumCredit es))"
proof -
  have d: "foldl (\<lambda>sum entry. add sum (debit entry)) (Finite (of_int 0)) es =
      Finite (of_int 0 + sum_list (map (\<lambda>e. exactValue (debit e)) es))"
    using assms by (intro foldl_add_whole) (simp_all add: sumDebit_def)
  have c: "foldl (\<lambda>sum entry. add sum (credit entry)) (Finite (of_int 0)) es =
      Finite (of_int 0 + sum_list (map (\<lambda>e. exactValue (credit e)) es))"
    using assms by (intro foldl_add_whole) (simp_all add: sumCredit_def)
  from d c show ?thesis
    by (simp add: calculateTotals_def zero_double_def sumDebit_def sumCredit_def)
qed

text \<open>
  Claim C1, as amended. The two totals that \<open>calculateTotals\<close> returns are the sums of the debit and of
  the credit fields taken from left to right, each addition rounded to a double, and
  \<open>isBalanced\<close> holds if and only if these totals are equal and the debit total is greater
  than zero. When every amount is a whole number, zero or more, and both sums are at most
  \<open>2^53\<close>, no addition rounds: the totals are the exact sums, and \<open>isBalanced\<close> holds if
  and only if the sum of the debit fields equals the sum of the credit fields and that
  sum is strictly positive. The empty list is not balanced.
\<close>

theorem isBalanced_iff_sums:
  "calculateTotals [] = (0, 0)
   \<and> calculateTotals (es @ [e]) =
       (add (fst (calculateTotals es)) (debit e), add (snd (calculateTotals es)) (credit e))
   \<and> (isBalanced es \<longleftrightarrow>
        strictEquals (fst (calculateTotals es)) (snd (calculateTotals es))
        \<and> greaterThan (fst (calculateTotals es)) 0)
   \<and> ((\<forall>e\<in>set es. wholeAmount (debit e) \<and> wholeAmount (credit e)) \<longrightarrow>
      sumDebit es \<le> 2 ^ 53 \<longrightarrow> sumCredit es \<le> 2 ^ 53 \<longrightarrow>
      calculateTotals es = (Finite (sumDebit es), Finite (sumCredit es))
      \<and> (isBalanced es \<longleftrightarrow> sumDebit es = sumCredit es \<and> 0 < sumDebit es))
   \<and> \<not> isBalanced []"
proof (intro conjI impI)
  show "calculateTotals [] = (0, 0)"
    by (simp add: calculateTotals_def)
next
  show "calculateTotals (es @ [e]) =
       (add (fst (calculateTotals es)) (debit e), add (snd (calculateTotals es)) (credit e))"
    by (simp add: calculateTotals_def)
next
  show "isBalanced es \<longleftrightarrow>
        strictEquals (fst (calculateTotals es)) (snd (calculateTotals es))
        \<and> greaterThan (fst (calculateTotals es)) 0"
    by (simp add: isBalanced_def split: prod.split)
next
  assume h: "\<forall>e\<in>set es. wholeAmount (debit e) \<and> wholeAmount (credit e)"
    "sumDebit es \<le> 2 ^ 53" "sumCredit es \<le> 2 ^ 53"
  then show t: "calculateTotals es = (Finite (sumDebit es), Finite (sumCredit es))"
    by (rule calculateTotals_whole)
  show "isBalanced es \<longleftrightarrow> sumDebit es = sumCredit es \<and> 0 < sumDebit es"
    by (simp add: isBalanced_def t strictEquals_def zero_double_def)
next
  show "\<not> isBalanced []"
    by (simp add: isBalanced_def calculateTotals_def strictEquals_def zero_double_def)
qed

lemma wholeAmount_examples:
  "wholeAmount 0" "wholeAmount (Finite 100)" "wholeAmount (Finite 50)"
  by (simp_all add: wholeAmount_def zero_double_def)

lemma example_sums:
  "sumDebit balancedEntries = 100" "sumCredit balancedEntries = 100"
  "sumDebit unbalancedEntries = 100" "sumCredit unbalancedEntries = 50"
  by (simp_all add: sumDebit_def sumCredit_def balancedEntries_def unbalancedEntries_def
      zero_double_def)

theorem isBalanced_iff_sums_witness:
  "isBalanced balancedEntries
   \<and> calculateTotals balancedEntries = (Finite 100, Finite 100)
   \<and> \<not> isBalanced unbalancedEntries
   \<and> calculateTotals unbalancedEntries = (Finite 100, Finite 50)"
proof -
  have b: "\<forall>e\<in>set balancedEntries. wholeAmount (debit e) \<and> wholeAmount (credit e)"
    by (simp add: balancedEntries_def wholeAmount_examples)
  have u: "\<forall>e\<in>set unbalancedEntries. wholeAmount (debit e) \<and> wholeAmount (credit e)"
    by (simp add: unbalancedEntries_def wholeAmount_examples)
  from isBalanced_iff_sums
      [where es = balancedEntries and e = "\<lparr>particulars = [], debit = 0, credit = 0\<rparr>"]
    isBalanced_iff_sums
      [where es = unbalancedEntries and e = "\<lparr>particulars = [], debit = 0, credit = 0\<rparr>"]
    b u
  show ?thesis by (simp add: example_sums strictEquals_def zero_double_def)
qed

text \<open>
  The totals are not the exact sums for all entries: with debits \<open>2^53\<close> and 1 and a
  credit of \<open>2^53\<close> the two totals are both \<open>2^53\<close> and the entries are balanced, while the
  sum of the debit fields is \<open>2^53 + 1\<close>.
\<close>

theorem isBalanced_rounded_counterexample:
  "list_all (\<lambda>e. isDouble (debit e) \<and> isDouble (credit e)) largeEntries
   \<and> list_all singleSided largeEntries
   \<and> calculateTotals largeEntries = (Finite (2 ^ 53), Finite (2 ^ 53))
   \<and> isBalanced largeEntries
   \<and> sumDebit largeEntries = 2 ^ 53 + 1
   \<and> sumCredit largeEntries = 2 ^ 53
   \<and> sumDebit largeEntries \<noteq> sumCredit largeEntries"
proof -
  have t: "calculateTotals largeEntries = (Finite (2 ^ 53), Finite (2 ^ 53))"
    by (simp add: calculateTotals_def largeEntries_def zero_double_def round_eval)
  have s: "sumDebit largeEntries = 2 ^ 53 + 1" "sumCredit largeEntries = 2 ^ 53"
    by (simp_all add: sumDebit_def sumCredit_def largeEntries_def zero_double_def)
  have l: "list_all singleSided largeEntries"
    by (simp add: largeEntries_def singleSided_def)
  have b: "isBalanced largeEntries"
    by (simp add: isBalanced_def t strictEquals_def zero_double_def)
  have "roundDouble (of_int (2 ^ 53)) = Finite (of_int (2 ^ 53))"
    by (rule roundDouble_of_int) simp
  then have "isDouble (Finite (2 ^ 53))" by (simp add: isDouble_def)
  then have d: "list_all (\<lambda>e. isDouble (debit e) \<and> isDouble (credit e)) largeEntries"
    by (simp add: largeEntries_def isDouble_small)
  from t s l b d show ?thesis by simp
qed

section \<open>Properties of the entry list of the voucher form\<close>

lemma filter_index_subset: "set (filter_index i index xs) \<subseteq> set xs"
  by (induction xs arbitrary: i) auto

lemma addEntry_entries:
  "entries (snd (addEntry s)) =
     (if cur_particulars (currentEntry s) = [] then entries s
      else entries s @
        [\<lparr>particulars = cur_particulars (currentEntry s),
          debit = (case cur_type (currentEntry s) of
                     Debit \<Rightarrow> cur_amount (currentEntry s) | Credit \<Rightarrow> 0),
          credit = (case cur_type (currentEntry s) of
                     Debit \<Rightarrow> 0 | Credit \<Rightarrow> cur_amount (currentEntry s))\<rparr>])"
  by (cases "cur_type (currentEntry s)") (simp_all add: addEntry_def Let_def)

lemma addEntry_preserves:
  "list_all singleSided (entries s) \<Longrightarrow> list_all singleSided (entries (snd (addEntry s)))"
  by (cases "cur_type (currentEntry s)") (simp_all add: addEntry_entries singleSided_def)

lemma removeEntry_preserves:
  "list_all singleSided (entries s) \<Longrightarrow> list_all singleSided (entries (removeEntry i s))"
  using filter_index_subset [of 0 i "entries s"]
  by (auto simp: removeEntry_def list_all_iff)

lemma reachable_single_sided: "reachable s \<Longrightarrow> list_all singleSided (entries s)"
proof (induction rule: reachable.induct)
  case init
  show ?case by (simp add: initialForm_def)
next
  case (add s)
  then show ?case by (simp add: addEntry_preserves)
next
  case (remove s i)
  then show ?case by (simp add: removeEntry_preserves)
qed (simp_all add: setType_def setAmount_def setParticulars_def)

lemma reachable_exampleForm: "reachable exampleForm"
  unfolding exampleForm_def by (intro reachable.intros)

text \<open>
  Claim C10. An entry that \<open>addEntry\<close> constructs is single-sided: with type debit its
  debit field is the entered amount and its credit field is 0, with type credit the other
  way round. The property that every entry of the list has \<open>debit = 0\<close> or \<open>credit = 0\<close>
  is preserved by \<open>addEntry\<close> and by \<open>removeEntry\<close>, and it holds in every state of the form
  built from the empty form by the input handlers, \<open>addEntry\<close> and \<open>removeEntry\<close>.
\<close>

theorem entries_single_sided:
  "(cur_particulars (currentEntry s) \<noteq> [] \<longrightarrow>
      (\<exists>e. entries (snd (addEntry s)) = entries s @ [e]
         \<and> (cur_type (currentEntry s) = Debit \<longrightarrow>
               debit e = cur_amount (currentEntry s) \<and> credit e = 0)
         \<and> (cur_type (currentEntry s) = Credit \<longrightarrow>
               debit e = 0 \<and> credit e = cur_amount (currentEntry s))))
   \<and> (list_all singleSided (entries s) \<longrightarrow>
         list_all singleSided (entries (snd (addEntry s)))
         \<and> list_all singleSided (entries (removeEntry i s)))
   \<and> (reachable s \<longrightarrow> list_all singleSided (entries s))"
  using addEntry_preserves [of s] removeEntry_preserves [of s i] reachable_single_sided [of s]
  by (cases "cur_type (currentEntry s)") (simp_all add: addEntry_entries)

theorem entries_single_sided_witness:
  "reachable (snd (addEntry exampleForm))
   \<and> entries (snd (addEntry exampleForm)) =
       [\<lparr>particulars = ''Bank'', debit = 0, credit = Finite 250\<rparr>]
   \<and> list_all singleSided (entries (snd (addEntry exampleForm)))
   \<and> list_all singleSided (entries (removeEntry 0 (snd (addEntry exampleForm))))"
proof -
  have r: "reachable (snd (addEntry exampleForm))"
    using reachable_exampleForm by (rule reachable.add)
  have e: "entries (snd (addEntry exampleForm)) =
             [\<lparr>particulars = ''Bank'', debit = 0, credit = Finite 250\<rparr>]"
    by (simp add: addEntry_def exampleForm_def setType_def setAmount_def setParticulars_def
        initialForm_def blankEntry_def)
  from entries_single_sided [of "snd (addEntry exampleForm)" 0] r e show ?thesis
    by simp
qed

section \<open>Properties of the string and number primitives\<close>

lemma digitValue_decimal: "d < 10 \<Longrightarrow> digitValue 10 (''0123456789'' ! d) = Some d"
proof -
  assume "d < 10"
  then have "d \<in> {0, 1, 2, 3, 4, 5, 6, 7, 8, 9}" by auto
  then show ?thesis by (auto simp: digitValue_def digitTable_def)
qed

lemma mathInt_snoc:
  "mathInt r (Z @ [c]) = mathInt r Z * r + (case digitValue r c of None \<Rightarrow> 0 | Some v \<Rightarrow> v)"
  by (simp add: mathInt_def)

lemma mathInt_digits10: "mathInt 10 (digits10 n) = n"
proof (induction n rule: digits10.induct)
  case (1 n)
  show ?case
  proof (cases "n < 10")
    case True
    then show ?thesis
      using mathInt_snoc [of 10 "[]" "''0123456789'' ! n"]
      by (simp add: digits10.simps [of n] digitValue_decimal mathInt_def)
  next
    case False
    with 1 have "mathInt 10 (digits10 (n div 10)) = n div 10" by simp
    with False show ?thesis
      by (simp add: digits10.simps [of n] mathInt_snoc digitValue_decimal)
  qed
qed

lemma digits10_not_Nil: "digits10 n \<noteq> []"
  by (subst digits10.simps) simp

lemma isDecimal_nth: "d < 10 \<Longrightarrow> isDecimal (''0123456789'' ! d)"
  unfolding isDecimal_def by (rule nth_mem) simp

lemma digits10_decimal: "list_all isDecimal (digits10 n)"
proof (induction n rule: digits10.induct)
  case (1 n)
  show ?case
  proof (cases "n < 10")
    case True
    then show ?thesis by (simp add: digits10.simps [of n] isDecimal_nth)
  next
    case False
    with 1 show ?thesis by (simp add: digits10.simps [of n] isDecimal_nth)
  qed
qed

lemma mathInt_zeros: "mathInt 10 (replicate k CHR ''0'' @ Z) = mathInt 10 Z"
proof -
  have "foldl (\<lambda>acc c. acc * 10 + (case digitValue 10 c of None \<Rightarrow> 0 | Some v \<Rightarrow> v)) 0
          (replicate k CHR ''0'') = 0"
    by (induction k) (simp_all add: digitValue_def digitTable_def)
  then show ?thesis by (simp add: mathInt_def)
qed

lemma isDecimal_cases:
  assumes "isDecimal c"
  shows "c = CHR ''0'' \<or> c = CHR ''1'' \<or> c = CHR ''2'' \<or> c = CHR ''3'' \<or> c = CHR ''4''
    \<or> c = CHR ''5'' \<or> c = CHR ''6'' \<or> c = CHR ''7'' \<or> c = CHR ''8'' \<or> c = CHR ''9''"
  using assms unfolding isDecimal_def by simp

lemma isDecimal_facts:
  assumes "isDecimal c"
  shows "\<not> isWhiteSpace c" "c \<noteq> CHR ''-''" "c \<noteq> CHR ''+''" "c \<noteq> CHR ''x''" "c \<noteq> CHR ''X''"
    "c \<noteq> CHR ''_''" "isDigit 10 c"
proof -
  note d = isDecimal_cases [OF assms]
  show "\<not> isWhiteSpace c" using d by (elim disjE) (simp_all add: isWhiteSpace_def)
  show "c \<noteq> CHR ''-''" using d by (elim disjE) simp_all
  show "c \<noteq> CHR ''+''" using d by (elim disjE) simp_all
  show "c \<noteq> CHR ''x''" using d by (elim disjE) simp_all
  show "c \<noteq> CHR ''X''" using d by (elim disjE) simp_all
  show "c \<noteq> CHR ''_''" using d by (elim disjE) simp_all
  show "isDigit 10 c" using d
    by (elim disjE) (simp_all add: isDigit_def digitValue_def digitTable_def)
qed

lemma parseInt_decimal:
  assumes "ds \<noteq> []" "list_all isDecimal ds"
  shows "parseInt ds = Num (int (mathInt 10 ds))"
proof -
  from assms obtain c cs where ds: "ds = c # cs" by (cases ds) auto
  with assms have c: "isDecimal c" and cs: "list_all isDecimal cs" by simp_all
  have ws: "dropWhile isWhiteSpace ds = ds"
    using isDecimal_facts(1) [OF c] by (simp add: ds)
  have sign: "take 1 ds \<noteq> ''-''" "take 1 ds \<noteq> ''+''"
    using isDecimal_facts(2,3) [OF c] by (simp_all add: ds)
  have nohex: "take 2 ds \<noteq> ''0x''" "take 2 ds \<noteq> ''0X''"
  proof -
    show "take 2 ds \<noteq> ''0x''"
    proof (cases cs)
      case Nil
      then show ?thesis by (simp add: ds)
    next
      case (Cons d cs')
      with cs have "isDecimal d" by simp
      then have "d \<noteq> CHR ''x''" by (rule isDecimal_facts(4))
      then show ?thesis by (simp add: ds Cons)
    qed
    show "take 2 ds \<noteq> ''0X''"
    proof (cases cs)
      case Nil
      then show ?thesis by (simp add: ds)
    next
      case (Cons d cs')
      with cs have "isDecimal d" by simp
      then have "d \<noteq> CHR ''X''" by (rule isDecimal_facts(5))
      then show ?thesis by (simp add: ds Cons)
    qed
  qed
  have all: "takeWhile (isDigit 10) ds = ds"
    using assms(2) by (simp add: list_all_iff isDecimal_facts(7))
  show ?thesis
    unfolding parseInt_def Let_def
    by (simp only: ws sign nohex all if_False simp_thms) (simp add: assms(1))
qed

lemma split_no_sep: "sep \<notin> set s \<Longrightarrow> split sep s = [s]"
  by (induction s) auto

lemma orderByDescLimit1_Nil: "orderByDescLimit1 [] = []"
  by (simp add: orderByDescLimit1_def)

lemma split_MEM: "CHR ''_'' \<notin> set ds \<Longrightarrow> split CHR ''_'' (''MEM_'' @ ds) = [''MEM'', ds]"
  by (simp add: split_no_sep)

lemma last_sorted_Max:
  assumes "sorted ys" "ys \<noteq> []"
  shows "last ys = Max (set ys)"
proof -
  from assms(2) have ys: "ys = butlast ys @ [last ys]" by simp
  with assms(1) have "sorted (butlast ys @ [last ys])" by simp
  then have le: "\<forall>x\<in>set (butlast ys). x \<le> last ys"
    by (simp add: sorted_append)
  have "\<And>y. y \<in> set ys \<Longrightarrow> y \<le> last ys"
  proof -
    fix y assume "y \<in> set ys"
    then have "y \<in> set (butlast ys @ [last ys])" using ys by simp
    then show "y \<le> last ys" using le by auto
  qed
  moreover have "last ys \<in> set ys" using assms(2) by simp
  ultimately show ?thesis by (intro Max_eqI [symmetric]) simp_all
qed

lemma take1_rev: "ys \<noteq> [] \<Longrightarrow> take 1 (rev ys) = [last ys]"
  by (cases ys rule: rev_cases) simp_all

lemma orderByDescLimit1_Max:
  assumes "column \<noteq> []"
  shows "orderByDescLimit1 column = [Max (set column)]"
proof -
  have "set (sort column) \<noteq> {}" using assms by simp
  then have ne: "sort column \<noteq> []" by (simp del: set_sort)
  have "last (sort column) = Max (set column)"
    using last_sorted_Max [of "sort column"] ne by simp
  with take1_rev [OF ne] show ?thesis by (simp add: orderByDescLimit1_def)
qed

lemma zeros_decimal: "list_all isDecimal (replicate k CHR ''0'')"
  by (induction k) (simp_all add: isDecimal_def)

lemma padded_digits:
  "list_all isDecimal (replicate k CHR ''0'' @ digits10 n)"
  "replicate k CHR ''0'' @ digits10 n \<noteq> []"
  "parseInt (replicate k CHR ''0'' @ digits10 n) = Num (int n)"
proof -
  show dec: "list_all isDecimal (replicate k CHR ''0'' @ digits10 n)"
    by (simp add: zeros_decimal digits10_decimal)
  show ne: "replicate k CHR ''0'' @ digits10 n \<noteq> []"
    by (simp add: digits10_not_Nil)
  show "parseInt (replicate k CHR ''0'' @ digits10 n) = Num (int n)"
    using parseInt_decimal [OF ne dec] by (simp add: mathInt_zeros mathInt_digits10)
qed

section \<open>Properties of the identifier generators\<close>

lemma generateMemberNumber_next:
  assumes "orderByDescLimit1 (map memNo (members db)) = [''MEM_'' @ replicate k CHR ''0'' @ digits10 n]"
  shows "generateMemberNumber db = ''MEM_'' @ padStart 3 ''0'' (digits10 (Suc n))"
proof -
  let ?ds = "replicate k CHR ''0'' @ digits10 n"
  have dec: "list_all isDecimal ?ds" by (rule padded_digits(1))
  have "CHR ''_'' \<notin> set ?ds"
    using dec isDecimal_facts(6) unfolding list_all_iff by blast
  then have sp: "split CHR ''_'' (''MEM_'' @ ?ds) = [''MEM'', ?ds]"
    by (rule split_MEM)
  have "parseIntAt (split CHR ''_'' (''MEM_'' @ ?ds)) 1 = parseInt ?ds"
    by (simp only: sp parseIntAt_def) simp
  then have pi: "parseIntAt (split CHR ''_'' (''MEM_'' @ ?ds)) 1 = Num (int n)"
    by (simp only: padded_digits(3))
  have suc: "nat (int n + 1) = Suc n" by simp
  show ?thesis
    using assms pi
    by (simp add: generateMemberNumber_def Let_def suc del: split.simps)
qed

lemma slice3: "length p = 3 \<Longrightarrow> slice 3 (p @ ds) = ds"
  by (simp add: slice_def)

lemma generateLoanNumber_next:
  assumes "orderByDescLimit1 (map loanNo (loans db)) = [p @ replicate k CHR ''0'' @ digits10 n]"
    and "length p = 3"
  shows "generateLoanNumber y db = ''L'' @ yearSuffix y @ padStart 3 ''0'' (digits10 (Suc n))"
proof -
  have suc: "nat (int n + 1) = Suc n" by simp
  show ?thesis
    using assms(1)
    by (simp add: generateLoanNumber_def Let_def slice3 [OF assms(2)] padded_digits(3) suc)
qed

lemma generateVoucherNumber_next:
  assumes "orderByDescLimit1 (map voucherNo (filter (\<lambda>v. voucherType v = t) (vouchers db)))
             = [p @ replicate k CHR ''0'' @ digits10 n]"
    and "length p = 3"
  shows "generateVoucherNumber y db t =
           toUpperCase (charAt 0 (voucher_type_name t)) @ yearSuffix y
             @ padStart 3 ''0'' (digits10 (Suc n))"
proof -
  have suc: "nat (int n + 1) = Suc n" by simp
  show ?thesis
    using assms(1)
    by (simp add: generateVoucherNumber_def Let_def slice3 [OF assms(2)] padded_digits(3) suc)
qed

lemma digits10_ge10:
  "10 \<le> m \<Longrightarrow> digits10 m = digits10 (m div 10) @ [''0123456789'' ! (m mod 10)]"
  by (subst digits10.simps) simp

lemma digits10_last:
  "\<exists>xs. digits10 m = xs @ [''0123456789'' ! (m mod 10)]"
proof (cases "m < 10")
  case True
  then show ?thesis by (simp add: digits10.simps [of m])
next
  case False
  then show ?thesis by (simp add: digits10_ge10)
qed

lemma yearSuffix_two_digits:
  assumes "10 \<le> y"
  shows "yearSuffix y =
           [''0123456789'' ! (nat y div 10 mod 10), ''0123456789'' ! (nat y mod 10)]"
proof -
  from assms have m: "10 \<le> nat y" by simp
  obtain xs where xs: "digits10 (nat y div 10) = xs @ [''0123456789'' ! (nat y div 10 mod 10)]"
    using digits10_last by blast
  have "digits10 (nat y) =
          xs @ [''0123456789'' ! (nat y div 10 mod 10), ''0123456789'' ! (nat y mod 10)]"
    using digits10_ge10 [OF m] xs by simp
  moreover have "toString (Num y) = digits10 (nat y)" using assms by simp
  ultimately show ?thesis by (simp add: yearSuffix_def slice_def)
qed

lemma padStart_zeros:
  "padStart 3 ''0'' s = replicate (3 - length s) CHR ''0'' @ s"
  by (simp add: padStart_def)

lemma memNo_memberRow: "memNo (memberRow n) = n"
  by (simp add: memberRow_def)

lemma loanNo_loanRow: "loanNo (loanRow n) = n"
  by (simp add: loanRow_def)

lemma members_dbWithMembers: "map memNo (members (dbWithMembers ns)) = ns"
  by (simp add: dbWithMembers_def emptyDatabase_def comp_def memNo_memberRow)

lemma loans_dbWithLoans: "map loanNo (loans (dbWithLoans ns)) = ns"
  by (simp add: dbWithLoans_def emptyDatabase_def comp_def loanNo_loanRow)

lemma members_Nil: "members db = [] \<Longrightarrow> generateMemberNumber db = ''MEM_001''"
  by (simp add: generateMemberNumber_def orderByDescLimit1_def)

lemma loans_Nil: "loans db = [] \<Longrightarrow> generateLoanNumber y db = ''L'' @ yearSuffix y @ ''001''"
  by (simp add: generateLoanNumber_def orderByDescLimit1_def)

text \<open>
  Claim C5. When the member table is empty the generated number is exactly \<open>MEM_001\<close>.
  When the last-issued member number, the greatest in string order, is \<open>MEM_\<close> followed
  by a decimal numeral of \<open>n\<close> (leading zeros allowed), the next generated number is
  \<open>MEM_\<close> followed by \<open>n + 1\<close> in decimal, padded with zeros on the left to at least
  three digits. The numeral is one that a Number holds exactly: \<open>n < 2 ^ 53\<close>.
\<close>

theorem next_member_number:
  "(members db = [] \<longrightarrow> generateMemberNumber db = ''MEM_001'')
   \<and> (members db \<noteq> []
        \<and> Max (set (map memNo (members db))) = ''MEM_'' @ replicate k CHR ''0'' @ digits10 n
        \<and> n < 2 ^ 53 \<longrightarrow>
      generateMemberNumber db =
        ''MEM_'' @ replicate (3 - length (digits10 (n + 1))) CHR ''0'' @ digits10 (n + 1))"
proof (intro conjI impI)
  assume "members db = []"
  then show "generateMemberNumber db = ''MEM_001''" by (rule members_Nil)
next
  assume a: "members db \<noteq> []
        \<and> Max (set (map memNo (members db))) = ''MEM_'' @ replicate k CHR ''0'' @ digits10 n
        \<and> n < 2 ^ 53"
  then have "map memNo (members db) \<noteq> []" by simp
  then have "orderByDescLimit1 (map memNo (members db)) = [Max (set (map memNo (members db)))]"
    by (rule orderByDescLimit1_Max)
  with a have "orderByDescLimit1 (map memNo (members db))
                 = [''MEM_'' @ replicate k CHR ''0'' @ digits10 n]"
    by simp
  then have "generateMemberNumber db = ''MEM_'' @ padStart 3 ''0'' (digits10 (Suc n))"
    by (rule generateMemberNumber_next)
  then show "generateMemberNumber db =
        ''MEM_'' @ replicate (3 - length (digits10 (n + 1))) CHR ''0'' @ digits10 (n + 1)"
    by (simp add: padStart_zeros)
qed

lemma digits10_7: "digits10 7 = ''7''" by (simp add: digits10.simps)
lemma digits10_8: "digits10 8 = ''8''" by (simp add: digits10.simps)

theorem next_member_number_witness:
  "generateMemberNumber emptyDatabase = ''MEM_001''
   \<and> generateMemberNumber (dbWithMembers [''MEM_007'']) = ''MEM_008''"
proof -
  have e: "members emptyDatabase = []" by (simp add: emptyDatabase_def)
  have m: "members (dbWithMembers [''MEM_007'']) \<noteq> []"
    by (simp add: dbWithMembers_def emptyDatabase_def)
  have x: "Max (set (map memNo (members (dbWithMembers [''MEM_007''])))) =
             ''MEM_'' @ replicate 2 CHR ''0'' @ digits10 7"
    by (simp add: members_dbWithMembers digits10_7 numeral_2_eq_2)
  have b: "(7::nat) < 2 ^ 53" by simp
  from next_member_number [of emptyDatabase] e
  have "generateMemberNumber emptyDatabase = ''MEM_001''" by simp
  moreover from next_member_number [of "dbWithMembers [''MEM_007'']" 2 7] m x b
  have "generateMemberNumber (dbWithMembers [''MEM_007'']) = ''MEM_008''"
    by (simp add: digits10_8 numeral_2_eq_2)
  ultimately show ?thesis by simp
qed

lemma digits10_2024: "digits10 2024 = ''2024''" by code_simp

lemma yearSuffix_2024: "yearSuffix 2024 = ''24''"
  by (simp add: yearSuffix_def slice_def digits10_2024)

text \<open>
  Claim C6, as amended. The next loan number is \<open>L\<close>, the last two digits of the current
  year, and a number padded with zeros to at least three digits. The number is 1 when the
  loan table is empty; otherwise it is one plus the number read after the first three
  characters of the greatest loan number of the whole table, whatever the year in that
  loan number. With last loan number \<open>L24007\<close> in 2024 the next one is \<open>L24008\<close>.
\<close>

theorem next_loan_number:
  "(loans db = [] \<longrightarrow> generateLoanNumber currentYear db = ''L'' @ yearSuffix currentYear @ ''001'')
   \<and> (loans db \<noteq> []
        \<and> Max (set (map loanNo (loans db))) = p @ replicate k CHR ''0'' @ digits10 n
        \<and> length p = 3 \<and> n < 2 ^ 53 \<longrightarrow>
      generateLoanNumber currentYear db =
        ''L'' @ yearSuffix currentYear
          @ replicate (3 - length (digits10 (n + 1))) CHR ''0'' @ digits10 (n + 1))
   \<and> (10 \<le> currentYear \<longrightarrow>
        yearSuffix currentYear =
          [''0123456789'' ! (nat currentYear div 10 mod 10),
           ''0123456789'' ! (nat currentYear mod 10)])"
proof (intro conjI impI)
  assume "loans db = []"
  then show "generateLoanNumber currentYear db = ''L'' @ yearSuffix currentYear @ ''001''"
    by (rule loans_Nil)
next
  assume a: "loans db \<noteq> []
        \<and> Max (set (map loanNo (loans db))) = p @ replicate k CHR ''0'' @ digits10 n
        \<and> length p = 3 \<and> n < 2 ^ 53"
  then have "map loanNo (loans db) \<noteq> []" by simp
  then have "orderByDescLimit1 (map loanNo (loans db)) = [Max (set (map loanNo (loans db)))]"
    by (rule orderByDescLimit1_Max)
  with a have "orderByDescLimit1 (map loanNo (loans db))
                 = [p @ replicate k CHR ''0'' @ digits10 n]"
    by simp
  moreover from a have "length p = 3" by simp
  ultimately have "generateLoanNumber currentYear db =
      ''L'' @ yearSuffix currentYear @ padStart 3 ''0'' (digits10 (Suc n))"
    by (rule generateLoanNumber_next)
  then show "generateLoanNumber currentYear db =
        ''L'' @ yearSuffix currentYear
          @ replicate (3 - length (digits10 (n + 1))) CHR ''0'' @ digits10 (n + 1)"
    by (simp add: padStart_zeros)
next
  assume "10 \<le> currentYear"
  then show "yearSuffix currentYear =
          [''0123456789'' ! (nat currentYear div 10 mod 10),
           ''0123456789'' ! (nat currentYear mod 10)]"
    by (rule yearSuffix_two_digits)
qed

theorem next_loan_number_witness:
  "generateLoanNumber 2024 emptyDatabase = ''L24001''
   \<and> generateLoanNumber 2024 (dbWithLoans [''L24007'']) = ''L24008''
   \<and> generateLoanNumber 2024 (dbWithLoans [''L23007'']) = ''L24008''
   \<and> yearSuffix 2024 = ''24''"
proof -
  have e: "loans emptyDatabase = []" by (simp add: emptyDatabase_def)
  have b: "(7::nat) < 2 ^ 53" by simp
  have y: "(10::int) \<le> 2024" by simp
  have m1: "loans (dbWithLoans [''L24007'']) \<noteq> []"
    by (simp add: dbWithLoans_def emptyDatabase_def)
  have x1: "Max (set (map loanNo (loans (dbWithLoans [''L24007''])))) =
             ''L24'' @ replicate 2 CHR ''0'' @ digits10 7"
    by (simp add: loans_dbWithLoans digits10_7 numeral_2_eq_2)
  have m2: "loans (dbWithLoans [''L23007'']) \<noteq> []"
    by (simp add: dbWithLoans_def emptyDatabase_def)
  have x2: "Max (set (map loanNo (loans (dbWithLoans [''L23007''])))) =
             ''L23'' @ replicate 2 CHR ''0'' @ digits10 7"
    by (simp add: loans_dbWithLoans digits10_7 numeral_2_eq_2)
  from next_loan_number [where db = emptyDatabase and currentYear = 2024] e
  have "generateLoanNumber 2024 emptyDatabase = ''L24001''"
    by (simp add: yearSuffix_2024)
  moreover from next_loan_number
    [where db = "dbWithLoans [''L24007'']" and p = "''L24''" and k = 2 and n = 7
       and currentYear = 2024] m1 x1 b
  have "generateLoanNumber 2024 (dbWithLoans [''L24007'']) = ''L24008''"
    by (simp add: digits10_8 numeral_2_eq_2 yearSuffix_2024)
  moreover from next_loan_number
    [where db = "dbWithLoans [''L23007'']" and p = "''L23''" and k = 2 and n = 7
       and currentYear = 2024] m2 x2 b
  have "generateLoanNumber 2024 (dbWithLoans [''L23007'']) = ''L24008''"
    by (simp add: digits10_8 numeral_2_eq_2 yearSuffix_2024)
  moreover from next_loan_number [where currentYear = 2024] y
  have "yearSuffix 2024 = ''24''" by simp
  ultimately show ?thesis by simp
qed

text \<open>
  Claim C6 as stated fails: in 2024, with \<open>L23007\<close> the only loan number, no loan number
  has the prefix \<open>L24\<close>, yet the generated number is \<open>L24008\<close> and not \<open>L24001\<close>.
\<close>

theorem loan_number_other_year_counterexample:
  "loansOfYear 2024 (dbWithLoans [''L23007'']) = []
   \<and> generateLoanNumber 2024 (dbWithLoans [''L23007'']) = ''L24008''
   \<and> generateLoanNumber 2024 (dbWithLoans [''L23007'']) \<noteq> ''L24001''"
proof -
  have "generateLoanNumber 2024 (dbWithLoans [''L23007'']) = ''L24008''"
    by code_simp
  moreover have "loansOfYear 2024 (dbWithLoans [''L23007'']) = []"
    by (simp add: loansOfYear_def loans_dbWithLoans hasPrefix_def yearSuffix_2024)
  ultimately show ?thesis by simp
qed

section \<open>Properties of the create operations\<close>

lemma createMemberWith_result:
  "createMemberWith insertValues db m =
     (if memNo m \<noteq> [] then ([CallInsert], insertValues m)
      else ([CallGenerateNumber, CallInsert],
            insertValues (m\<lparr>memNo := generateMemberNumber db\<rparr>)))"
  by (simp add: createMemberWith_def andThen_def called_def returning_def)


lemma createVoucherWith_result:
  "createVoucherWith insertValues y db v =
     (if voucherNo v \<noteq> [] then ([CallInsert], insertValues v)
      else ([CallGenerateNumber, CallInsert],
            insertValues (v\<lparr>voucherNo := generateVoucherNumber y db (voucherType v)\<rparr>)))"
  by (simp add: createVoucherWith_def andThen_def called_def returning_def)

lemma createMember_result:
  "createMember db m =
     (if memNo m = [] then
        ([CallGenerateNumber, CallInsert],
         if generateMemberNumber db \<in> set (map memNo (members db)) then Inl UniqueViolation
         else Inr (m\<lparr>memNo := generateMemberNumber db\<rparr>,
                   db\<lparr>members := members db @ [m\<lparr>memNo := generateMemberNumber db\<rparr>]\<rparr>))
      else
        ([CallInsert],
         if memNo m \<in> set (map memNo (members db)) then Inl UniqueViolation
         else Inr (m, db\<lparr>members := members db @ [m]\<rparr>)))"
  by (simp add: createMember_def createMemberWith_result insertIntoMembers_def)


lemma createVoucher_result:
  "createVoucher y db v =
     (if voucherNo v = [] then
        ([CallGenerateNumber, CallInsert],
         if generateVoucherNumber y db (voucherType v) \<in> set (map voucherNo (vouchers db))
         then Inl UniqueViolation
         else Inr (v\<lparr>voucherNo := generateVoucherNumber y db (voucherType v)\<rparr>,
                   db\<lparr>vouchers := vouchers db
                        @ [v\<lparr>voucherNo := generateVoucherNumber y db (voucherType v)\<rparr>]\<rparr>))
      else
        ([CallInsert],
         if voucherNo v \<in> set (map voucherNo (vouchers db)) then Inl UniqueViolation
         else Inr (v, db\<lparr>vouchers := vouchers db @ [v]\<rparr>)))"
  by (simp add: createVoucher_def createVoucherWith_result insertIntoVouchers_def)

lemma postMembers_result:
  "postMembers parse db body =
     (case parse body of
        None \<Rightarrow> (ServerError ''Failed to create member'', db)
      | Some m \<Rightarrow>
          let no = (if memNo m = [] then generateMemberNumber db else memNo m) in
          if no \<in> set (map memNo (members db))
          then (ServerError ''Failed to create member'', db)
          else (Created (m\<lparr>memNo := no\<rparr>), db\<lparr>members := members db @ [m\<lparr>memNo := no\<rparr>]\<rparr>))"
  by (simp add: postMembers_def createMember_result Let_def split: option.split)

lemma postVouchers_result:
  "postVouchers parse y db body =
     (case parse body of
        None \<Rightarrow> (ServerError ''Failed to create voucher'', db)
      | Some v \<Rightarrow>
          let no = (if voucherNo v = [] then generateVoucherNumber y db (voucherType v)
                    else voucherNo v) in
          if no \<in> set (map voucherNo (vouchers db))
          then (ServerError ''Failed to create voucher'', db)
          else (Created (v\<lparr>voucherNo := no\<rparr>),
                db\<lparr>vouchers := vouchers db @ [v\<lparr>voucherNo := no\<rparr>]\<rparr>))"
  by (simp add: postVouchers_def createVoucher_result Let_def split: option.split)



lemma voucherNo_voucherRow: "voucherNo (voucherRow n t es) = n"
  by (simp add: voucherRow_def)

lemma voucherType_voucherRow: "voucherType (voucherRow n t es) = t"
  by (simp add: voucherRow_def)

lemma memberRow_memNo_update: "(memberRow n)\<lparr>memNo := n'\<rparr> = memberRow n'"
  by (simp add: memberRow_def)



lemma example_tables:
  "members (dbWithMembers ns) = map memberRow ns"
  "loans (dbWithMembers ns) = []"
  "vouchers (dbWithMembers ns) = []"
  "members (dbWithLoans ns) = []"
  "loans (dbWithLoans ns) = map loanRow ns"
  "vouchers (dbWithLoans ns) = []"
  "members (dbWithVouchers rows) = []"
  "loans (dbWithVouchers rows) = []"
  "vouchers (dbWithVouchers rows) = rows"
  by (simp_all add: dbWithMembers_def dbWithLoans_def dbWithVouchers_def emptyDatabase_def)




section \<open>Generators on a malformed last identifier\<close>

lemma parseInt_noNumber:
  assumes "noNumber s"
  shows "parseInt s = NaN"
proof (cases s)
  case Nil
  then show ?thesis by (simp add: parseInt_def)
next
  case (Cons c cs)
  with assms have c: "\<not> isWhiteSpace c" "c \<noteq> CHR ''+''" "c \<noteq> CHR ''-''" "\<not> isDigit 10 c"
    by (simp_all add: noNumber_def)
  have zero: "isDigit 10 CHR ''0''"
    by (simp add: isDigit_def digitValue_def digitTable_def)
  with c(4) have c0: "c \<noteq> CHR ''0''" by auto
  have ws: "dropWhile isWhiteSpace s = s" using c(1) by (simp add: Cons)
  have sign: "take 1 s \<noteq> ''-''" "take 1 s \<noteq> ''+''" using c(2,3) by (simp_all add: Cons)
  have nohex: "take 2 s \<noteq> ''0x''" "take 2 s \<noteq> ''0X''"
    using c0 by (cases cs; simp add: Cons)+
  have none: "takeWhile (isDigit 10) s = []" using c(4) by (simp add: Cons)
  show ?thesis
    unfolding parseInt_def Let_def
    by (simp only: ws sign nohex none if_False simp_thms) simp
qed

lemma split_not_Nil: "split sep s \<noteq> []"
  by (induction s) (auto split: list.splits)

lemma split_at_sep:
  "sep \<notin> set a \<Longrightarrow> split sep (a @ sep # b) = a # split sep b"
  by (induction a) (auto simp: split_not_Nil split: list.splits)

lemma noNumber_first_segment:
  assumes "noNumber b"
  shows "noNumber (hd (split CHR ''_'' b))"
proof (cases b)
  case Nil
  then show ?thesis by (simp add: noNumber_def)
next
  case (Cons c cs)
  show ?thesis
  proof (cases "c = CHR ''_''")
    case True
    then show ?thesis by (simp add: Cons noNumber_def)
  next
    case False
    obtain x xs where "split CHR ''_'' cs = x # xs"
      using split_not_Nil [of "CHR ''_''" cs] by (cases "split CHR ''_'' cs") auto
    with False assms show ?thesis by (simp add: Cons noNumber_def)
  qed
qed

lemma parseIntAt_no_separator:
  assumes "CHR ''_'' \<notin> set s"
  shows "parseIntAt (split CHR ''_'' s) 1 = NaN"
proof -
  have "noNumber ''undefined''"
    by (simp add: noNumber_def isWhiteSpace_def isDigit_def digitValue_def digitTable_def)
  then have "parseInt ''undefined'' = NaN" by (rule parseInt_noNumber)
  then show ?thesis
    by (simp only: split_no_sep [OF assms] parseIntAt_def) simp
qed

lemma parseIntAt_second_segment:
  assumes "CHR ''_'' \<notin> set a" "noNumber b"
  shows "parseIntAt (split CHR ''_'' (a @ ''_'' @ b)) 1 = NaN"
proof -
  obtain x xs where x: "split CHR ''_'' b = x # xs"
    using split_not_Nil [of "CHR ''_''" b] by (cases "split CHR ''_'' b") auto
  have "noNumber x" using noNumber_first_segment [OF assms(2)] x by simp
  then have "parseInt x = NaN" by (rule parseInt_noNumber)
  moreover have "split CHR ''_'' (a @ ''_'' @ b) = a # x # xs"
    using split_at_sep [OF assms(1), of b] x by simp
  ultimately show ?thesis by (simp only: parseIntAt_def) simp
qed

lemma padStart_NaN: "padStart 3 ''0'' ''NaN'' = ''NaN''"
  by (simp add: padStart_def)

lemma generateMemberNumber_NaN:
  assumes "members db \<noteq> []"
    and "parseIntAt (split CHR ''_'' (Max (set (map memNo (members db))))) 1 = NaN"
  shows "generateMemberNumber db = ''MEM_NaN''"
proof -
  from assms(1) have "map memNo (members db) \<noteq> []" by simp
  then have "orderByDescLimit1 (map memNo (members db)) = [Max (set (map memNo (members db)))]"
    by (rule orderByDescLimit1_Max)
  then show ?thesis
    using assms(2) by (simp add: generateMemberNumber_def Let_def padStart_NaN del: split.simps)
qed

lemma generateLoanNumber_NaN:
  assumes "loans db \<noteq> []"
    and "noNumber (slice 3 (Max (set (map loanNo (loans db)))))"
  shows "generateLoanNumber y db = ''L'' @ yearSuffix y @ ''NaN''"
proof -
  from assms(1) have "map loanNo (loans db) \<noteq> []" by simp
  then have "orderByDescLimit1 (map loanNo (loans db)) = [Max (set (map loanNo (loans db)))]"
    by (rule orderByDescLimit1_Max)
  then show ?thesis
    using parseInt_noNumber [OF assms(2)]
    by (simp add: generateLoanNumber_def Let_def padStart_NaN)
qed

lemma generateVoucherNumber_NaN:
  assumes "voucherNosOfType t db \<noteq> []"
    and "noNumber (slice 3 (Max (set (voucherNosOfType t db))))"
  shows "generateVoucherNumber y db t =
           toUpperCase (charAt 0 (voucher_type_name t)) @ yearSuffix y @ ''NaN''"
proof -
  have "orderByDescLimit1 (voucherNosOfType t db) = [Max (set (voucherNosOfType t db))]"
    using assms(1) by (rule orderByDescLimit1_Max)
  then show ?thesis
    using parseInt_noNumber [OF assms(2)]
    by (simp add: generateVoucherNumber_def Let_def padStart_NaN voucherNosOfType_def)
qed



text \<open>
  Claim C3, as amended. A malformed last identifier raises no error in any generator.
  When \<open>parseInt\<close> finds no number where the generator looks (for a member number: there
  is no underscore, or the text after the first underscore is empty or starts with a
  character that is neither white space, a sign nor a digit; for a loan or voucher number:
  the text after the first three characters is such), the generator returns the prefix
  followed by the text \<open>NaN\<close>: \<open>MEM_NaN\<close>, \<open>L{yy}NaN\<close>, \<open>{T}{yy}NaN\<close>.
\<close>

theorem malformed_last_identifier:
  "(members db \<noteq> [] \<and> CHR ''_'' \<notin> set (Max (set (map memNo (members db)))) \<longrightarrow>
      generateMemberNumber db = ''MEM_NaN'')
   \<and> (members db \<noteq> [] \<and> Max (set (map memNo (members db))) = a @ ''_'' @ b
        \<and> CHR ''_'' \<notin> set a \<and> noNumber b \<longrightarrow>
      generateMemberNumber db = ''MEM_NaN'')
   \<and> (loans db \<noteq> [] \<and> noNumber (slice 3 (Max (set (map loanNo (loans db))))) \<longrightarrow>
      generateLoanNumber y db = ''L'' @ yearSuffix y @ ''NaN'')
   \<and> (voucherNosOfType t db \<noteq> [] \<and> noNumber (slice 3 (Max (set (voucherNosOfType t db)))) \<longrightarrow>
      generateVoucherNumber y db t =
        toUpperCase (charAt 0 (voucher_type_name t)) @ yearSuffix y @ ''NaN'')"
proof (intro conjI impI)
  assume "members db \<noteq> [] \<and> CHR ''_'' \<notin> set (Max (set (map memNo (members db))))"
  then show "generateMemberNumber db = ''MEM_NaN''"
    using generateMemberNumber_NaN parseIntAt_no_separator by blast
next
  assume a: "members db \<noteq> [] \<and> Max (set (map memNo (members db))) = a @ ''_'' @ b
        \<and> CHR ''_'' \<notin> set a \<and> noNumber b"
  then have "parseIntAt (split CHR ''_'' (Max (set (map memNo (members db))))) 1 = NaN"
    using parseIntAt_second_segment [of a b] by (simp del: split.simps)
  with a show "generateMemberNumber db = ''MEM_NaN''"
    using generateMemberNumber_NaN by blast
next
  assume "loans db \<noteq> [] \<and> noNumber (slice 3 (Max (set (map loanNo (loans db)))))"
  then show "generateLoanNumber y db = ''L'' @ yearSuffix y @ ''NaN''"
    using generateLoanNumber_NaN by blast
next
  assume "voucherNosOfType t db \<noteq> []
    \<and> noNumber (slice 3 (Max (set (voucherNosOfType t db))))"
  then show "generateVoucherNumber y db t =
        toUpperCase (charAt 0 (voucher_type_name t)) @ yearSuffix y @ ''NaN''"
    using generateVoucherNumber_NaN by blast
qed


lemma noNumber_examples: "noNumber ''abc''" "noNumber []"
  by (simp_all add: noNumber_def isWhiteSpace_def isDigit_def digitValue_def digitTable_def)

lemma yearSuffix_2025: "yearSuffix 2025 = ''25''"
  by code_simp

theorem malformed_last_identifier_witness:
  "generateMemberNumber (dbWithMembers [''A17'']) = ''MEM_NaN''
   \<and> generateMemberNumber (dbWithMembers [''MEM_abc'']) = ''MEM_NaN''
   \<and> generateLoanNumber 2025 (dbWithLoans [''L24'']) = ''L25NaN''
   \<and> generateVoucherNumber 2025 (dbWithVouchers [voucherRow ''P24abc'' payment []]) payment
        = ''P25NaN''"
proof -
  note ev = example_tables memNo_memberRow loanNo_loanRow voucherNo_voucherRow
    voucherType_voucherRow memberRow_memNo_update
  have g1: "generateMemberNumber (dbWithMembers [''A17'']) = ''MEM_NaN''"
    using malformed_last_identifier
      [where db = "dbWithMembers [''A17'']" and a = "[]" and b = "[]" and y = 2025
         and t = payment]
    by (simp add: ev)
  have g2: "generateMemberNumber (dbWithMembers [''MEM_abc'']) = ''MEM_NaN''"
    using malformed_last_identifier
      [where db = "dbWithMembers [''MEM_abc'']" and a = "''MEM''" and b = "''abc''"
         and y = 2025 and t = payment]
    by (simp add: ev noNumber_examples)
  have g3: "generateLoanNumber 2025 (dbWithLoans [''L24'']) = ''L25NaN''"
    using malformed_last_identifier
      [where db = "dbWithLoans [''L24'']" and a = "[]" and b = "[]" and y = 2025
         and t = payment]
    by (simp add: ev slice_def noNumber_examples yearSuffix_2025)
  have g4: "generateVoucherNumber 2025 (dbWithVouchers [voucherRow ''P24abc'' payment []]) payment
        = ''P25NaN''"
    using malformed_last_identifier
      [where db = "dbWithVouchers [voucherRow ''P24abc'' payment []]" and a = "[]" and b = "[]"
         and y = 2025 and t = payment]
    by (simp add: ev voucherNosOfType_def slice_def noNumber_examples yearSuffix_2025
        toUpperCase_def toUpperChar_def charAt_def)
  from g1 g2 g3 g4 show ?thesis by simp
qed

text \<open>
  Claim C3 as stated fails: with \<open>A17\<close> the last member number in the table, a request
  to create a member with the empty member number is answered with status 201 and the
  member is stored under the number \<open>MEM_NaN\<close>.
\<close>

theorem malformed_last_member_counterexample:
  "map memNo (members (dbWithMembers [''A17''])) = [''A17'']
   \<and> statusCode (fst (postMembers Some (dbWithMembers [''A17'']) (memberRow []))) = 201
   \<and> map memNo (members (snd (postMembers Some (dbWithMembers [''A17'']) (memberRow []))))
        = [''A17'', ''MEM_NaN'']"
proof -
  have "generateMemberNumber (dbWithMembers [''A17'']) = ''MEM_NaN''"
    by code_simp
  then show ?thesis
    by (simp add: postMembers_result example_tables memNo_memberRow memberRow_memNo_update
        Let_def)
qed

section \<open>Where the balance of a voucher is checked\<close>











section \<open>Generated numbers past 999\<close>

lemma of_char_decimal: "d < 10 \<Longrightarrow> of_char (''0123456789'' ! d) = (48 + d :: nat)"
proof -
  assume "d < 10"
  then have "d \<in> {0, 1, 2, 3, 4, 5, 6, 7, 8, 9}" by auto
  then show ?thesis by auto
qed

lemma decimal_less:
  "i < 10 \<Longrightarrow> j < 10 \<Longrightarrow> (''0123456789'' ! i < ''0123456789'' ! j) = (i < j)"
  by (simp add: less_char_def of_char_decimal)

lemma decimal_eq:
  "i < 10 \<Longrightarrow> j < 10 \<Longrightarrow> (''0123456789'' ! i = ''0123456789'' ! j) = (i = j)"
  using of_char_decimal [of i] of_char_decimal [of j]
  by (metis add_left_cancel)

lemma digits10_lt10: "n < 10 \<Longrightarrow> digits10 n = [''0123456789'' ! n]"
  by (subst digits10.simps) simp

lemma pad3:
  assumes "n < 1000"
  shows "padStart 3 ''0'' (digits10 n) =
           [''0123456789'' ! (n div 100), ''0123456789'' ! (n div 10 mod 10),
            ''0123456789'' ! (n mod 10)]"
proof -
  consider "n < 10" | "10 \<le> n" "n < 100" | "100 \<le> n" by linarith
  then show ?thesis
  proof cases
    case 1
    then show ?thesis by (simp add: digits10_lt10 padStart_def numeral_2_eq_2)
  next
    case 2
    then have "n div 10 < 10" "n div 100 = 0" by simp_all
    with 2 show ?thesis by (simp add: digits10_ge10 digits10_lt10 padStart_def)
  next
    case 3
    with assms have a: "10 \<le> n div 10" "n div 10 div 10 < 10" "n div 10 div 10 = n div 100"
      by simp_all
    from 3 have "10 \<le> n" by simp
    then show ?thesis
      using a by (simp add: digits10_ge10 [of n] digits10_ge10 [of "n div 10"] digits10_lt10 padStart_def)
  qed
qed

lemma three_digits: "(n::nat) = n div 100 * 100 + n div 10 mod 10 * 10 + n mod 10"
proof -
  define q where "q = n div 10"
  define h where "h = q div 10"
  define t where "t = q mod 10"
  have q: "q = h * 10 + t" by (simp add: h_def t_def)
  have n: "n = q * 10 + n mod 10" by (simp add: q_def)
  have h: "n div 100 = h" by (simp add: h_def q_def div_mult2_eq)
  have "n = (h * 10 + t) * 10 + n mod 10" using n q by simp
  then have "n = h * 100 + t * 10 + n mod 10" by (simp add: algebra_simps)
  then show ?thesis by (simp only: h t_def q_def)
qed

lemma three_digits_less:
  fixes a2 a1 a0 b2 b1 b0 :: nat
  assumes "a2 * 100 + a1 * 10 + a0 < b2 * 100 + b1 * 10 + b0"
    and "a1 < 10" "a0 < 10" "b1 < 10" "b0 < 10"
  shows "a2 < b2 \<or> a2 = b2 \<and> (a1 < b1 \<or> a1 = b1 \<and> a0 < b0)"
  using assms by linarith

lemma pad3_less:
  assumes "a < b" "b < 1000"
  shows "padStart 3 ''0'' (digits10 a) < padStart 3 ''0'' (digits10 b)"
proof -
  from assms have a: "a < 1000" by simp
  have r: "a div 100 < 10" "b div 100 < 10" "a div 10 mod 10 < 10" "b div 10 mod 10 < 10"
    "a mod 10 < 10" "b mod 10 < 10"
    using assms a by simp_all
  have "a div 100 * 100 + a div 10 mod 10 * 10 + a mod 10
        < b div 100 * 100 + b div 10 mod 10 * 10 + b mod 10"
    using assms(1) three_digits [of a] three_digits [of b] by simp
  then have "a div 100 < b div 100
        \<or> a div 100 = b div 100 \<and> (a div 10 mod 10 < b div 10 mod 10
            \<or> a div 10 mod 10 = b div 10 mod 10 \<and> a mod 10 < b mod 10)"
    using r by (intro three_digits_less)
  then show ?thesis
    by (simp add: pad3 [OF a] pad3 [OF assms(2)] decimal_less r decimal_eq)
qed

lemma generateMemberNumber_after:
  assumes "members db \<noteq> []"
    and "Max (set (map memNo (members db))) = paddedMemberNumber n"
  shows "generateMemberNumber db = paddedMemberNumber (Suc n)"
proof -
  from assms(1) have "map memNo (members db) \<noteq> []" by simp
  then have "orderByDescLimit1 (map memNo (members db)) = [Max (set (map memNo (members db)))]"
    by (rule orderByDescLimit1_Max)
  then have "orderByDescLimit1 (map memNo (members db))
      = [''MEM_'' @ replicate (3 - length (digits10 n)) CHR ''0'' @ digits10 n]"
    using assms(2) by (simp add: paddedMemberNumber_def padStart_zeros)
  then show ?thesis
    unfolding paddedMemberNumber_def by (rule generateMemberNumber_next)
qed

lemma paddedMemberNumber_less:
  "a < b \<Longrightarrow> b < 1000 \<Longrightarrow> paddedMemberNumber a < paddedMemberNumber b"
  using pad3_less [of a b] by (simp add: paddedMemberNumber_def)

lemma paddedMemberNumber_mono:
  "a \<le> b \<Longrightarrow> b < 1000 \<Longrightarrow> paddedMemberNumber a \<le> paddedMemberNumber b"
  using paddedMemberNumber_less [of a b] by (cases "a = b") auto

text \<open>
  While the last member number carries a counter below 999, the generated number is above
  every stored member number in string order.
\<close>

lemma member_number_increases_below_999:
  assumes "members db \<noteq> []"
    and "Max (set (map memNo (members db))) = paddedMemberNumber n"
    and "n < 999"
  shows "\<forall>x \<in> set (map memNo (members db)). x < generateMemberNumber db"
proof
  fix x assume "x \<in> set (map memNo (members db))"
  then have "x \<le> Max (set (map memNo (members db)))" by simp
  also have "\<dots> < paddedMemberNumber (Suc n)"
    using assms(2,3) paddedMemberNumber_less [of n "Suc n"] by simp
  finally show "x < generateMemberNumber db"
    using generateMemberNumber_after [OF assms(1,2)] by simp
qed

lemma Max_padded:
  assumes "1 \<le> k" "k < 1000"
  shows "Max (set (map paddedMemberNumber [1..<Suc k])) = paddedMemberNumber k"
proof (rule Max_eqI)
  show "finite (set (map paddedMemberNumber [1..<Suc k]))" by simp
next
  fix y assume "y \<in> set (map paddedMemberNumber [1..<Suc k])"
  then have "y \<in> paddedMemberNumber ` {1..<Suc k}" by (simp only: set_map set_upt)
  then obtain i where "i \<in> {1..<Suc k}" "y = paddedMemberNumber i" by (rule imageE)
  then have "i \<le> k" "y = paddedMemberNumber i" by simp_all
  then show "y \<le> paddedMemberNumber k"
    using paddedMemberNumber_mono assms(2) by simp
next
  show "paddedMemberNumber k \<in> set (map paddedMemberNumber [1..<Suc k])"
    using assms(1) by auto
qed

lemma paddedMemberNumber_1: "paddedMemberNumber (Suc 0) = ''MEM_001''"
  by (simp add: paddedMemberNumber_def pad3)

lemma paddedMemberNumber_999: "paddedMemberNumber 999 = ''MEM_999''"
  by (simp add: paddedMemberNumber_def pad3)

lemma digits10_1000: "digits10 1000 = ''1000''"
  by code_simp

lemma paddedMemberNumber_1000: "paddedMemberNumber 1000 = ''MEM_1000''"
  by (simp add: paddedMemberNumber_def digits10_1000 padStart_def)

lemma paddedMemberNumber_length: "i < 1000 \<Longrightarrow> length (paddedMemberNumber i) = 7"
  by (simp add: paddedMemberNumber_def pad3)

lemma postMembers_auto:
  "postMembers Some db (memberRow []) =
     (if generateMemberNumber db \<in> set (map memNo (members db))
      then (ServerError ''Failed to create member'', db)
      else (Created (memberRow (generateMemberNumber db)),
            db\<lparr>members := members db @ [memberRow (generateMemberNumber db)]\<rparr>))"
  by (simp add: postMembers_result Let_def memNo_memberRow memberRow_memNo_update)

lemma autoCreateMembers_numbers:
  "k \<le> 999 \<Longrightarrow>
   map memNo (members (autoCreateMembers k emptyDatabase)) = map paddedMemberNumber [1..<Suc k]"
proof (induction k)
  case 0
  show ?case by (simp add: emptyDatabase_def)
next
  case (Suc k)
  let ?db = "autoCreateMembers k emptyDatabase"
  from Suc have col: "map memNo (members ?db) = map paddedMemberNumber [1..<Suc k]"
    and k: "k < 999" by simp_all
  have gen: "generateMemberNumber ?db = paddedMemberNumber (Suc k)"
  proof (cases "k = 0")
    case True
    then have "members ?db = []" by (simp add: emptyDatabase_def)
    then show ?thesis using True by (simp add: members_Nil paddedMemberNumber_1)
  next
    case False
    then have ne: "members ?db \<noteq> []" using col by auto
    have "Max (set (map memNo (members ?db))) = paddedMemberNumber k"
      using Max_padded [of k] False k by (simp add: col)
    with ne show ?thesis by (rule generateMemberNumber_after)
  qed
  have fresh: "generateMemberNumber ?db \<notin> set (map memNo (members ?db))"
  proof
    assume "generateMemberNumber ?db \<in> set (map memNo (members ?db))"
    then have "paddedMemberNumber (Suc k) \<in> set (map paddedMemberNumber [1..<Suc k])"
      by (simp only: gen col)
    then have "paddedMemberNumber (Suc k) \<in> paddedMemberNumber ` {1..<Suc k}"
      by (simp only: set_map set_upt)
    then obtain i where "i \<in> {1..<Suc k}" "paddedMemberNumber (Suc k) = paddedMemberNumber i"
      by (rule imageE)
    then have i: "i \<le> k" "paddedMemberNumber (Suc k) = paddedMemberNumber i" by simp_all
    then have "paddedMemberNumber i < paddedMemberNumber (Suc k)"
      using paddedMemberNumber_less [of i "Suc k"] k by simp
    with i(2) show False by simp
  qed
  have "map memNo (members (autoCreateMembers (Suc k) emptyDatabase))
          = map memNo (members ?db) @ [generateMemberNumber ?db]"
    using fresh by (simp add: postMembers_auto memNo_memberRow)
  then show ?case by (simp add: gen col)
qed

lemma autoCreateMembers_1000:
  "map memNo (members (autoCreateMembers 1000 emptyDatabase))
     = map paddedMemberNumber [1..<1000] @ [''MEM_1000'']"
proof -
  let ?db = "autoCreateMembers 999 emptyDatabase"
  have col: "map memNo (members ?db) = map paddedMemberNumber [1..<1000]"
    using autoCreateMembers_numbers [of 999] by simp
  then have ne: "members ?db \<noteq> []" by auto
  have "Max (set (map memNo (members ?db))) = paddedMemberNumber 999"
    using Max_padded [of 999] by (simp only: col) simp
  with ne have "generateMemberNumber ?db = paddedMemberNumber (Suc 999)"
    by (rule generateMemberNumber_after)
  then have gen: "generateMemberNumber ?db = ''MEM_1000''"
    by (simp add: paddedMemberNumber_1000)
  have fresh: "''MEM_1000'' \<notin> set (map memNo (members ?db))"
  proof
    assume "''MEM_1000'' \<in> set (map memNo (members ?db))"
    then have "''MEM_1000'' \<in> set (map paddedMemberNumber [1..<1000])" by (simp only: col)
    then have "''MEM_1000'' \<in> paddedMemberNumber ` {1..<1000}"
      by (simp only: set_map set_upt)
    then obtain i where "i \<in> {1..<1000}" "''MEM_1000'' = paddedMemberNumber i"
      by (rule imageE)
    then have "i < 1000" "''MEM_1000'' = paddedMemberNumber i" by simp_all
    then have "length ''MEM_1000'' = 7" using paddedMemberNumber_length [of i] by simp
    then show False by simp
  qed
  have "autoCreateMembers 1000 emptyDatabase = snd (postMembers Some ?db (memberRow []))"
    by (simp add: numeral_eq_Suc)
  then show ?thesis
    using fresh by (simp add: postMembers_auto gen col memNo_memberRow)
qed

lemma Max_after_1000:
  "Max (set (map paddedMemberNumber [1..<1000] @ [''MEM_1000''])) = paddedMemberNumber 999"
proof (rule Max_eqI)
  show "finite (set (map paddedMemberNumber [1..<1000] @ [''MEM_1000'']))" by simp
next
  fix y assume "y \<in> set (map paddedMemberNumber [1..<1000] @ [''MEM_1000''])"
  then have "y = ''MEM_1000'' \<or> y \<in> paddedMemberNumber ` {1..<1000}"
    by (simp only: set_append set_map set_upt) auto
  then show "y \<le> paddedMemberNumber 999"
  proof
    assume "y = ''MEM_1000''"
    then show ?thesis by (simp add: paddedMemberNumber_999)
  next
    assume "y \<in> paddedMemberNumber ` {1..<1000}"
    then obtain i where "i \<in> {1..<1000}" "y = paddedMemberNumber i" by (rule imageE)
    then show ?thesis using paddedMemberNumber_mono [of i 999] by simp
  qed
next
  have "paddedMemberNumber 999 \<in> paddedMemberNumber ` {1..<1000}" by simp
  then show "paddedMemberNumber 999 \<in> set (map paddedMemberNumber [1..<1000] @ [''MEM_1000''])"
    by (simp only: set_append set_map set_upt) simp
qed

lemma refused_after_1000:
  assumes "map memNo (members db) = map paddedMemberNumber [1..<1000] @ [''MEM_1000'']"
  shows "generateMemberNumber db = ''MEM_1000''"
    and "postMembers Some db (memberRow []) = (ServerError ''Failed to create member'', db)"
proof -
  from assms have ne: "members db \<noteq> []" by auto
  have "Max (set (map memNo (members db))) = paddedMemberNumber 999"
    by (simp only: assms Max_after_1000)
  with ne have "generateMemberNumber db = paddedMemberNumber (Suc 999)"
    by (rule generateMemberNumber_after)
  then show gen: "generateMemberNumber db = ''MEM_1000''"
    by (simp add: paddedMemberNumber_1000)
  have "''MEM_1000'' \<in> set (map memNo (members db))" by (simp only: assms) simp
  then show "postMembers Some db (memberRow []) = (ServerError ''Failed to create member'', db)"
    by (simp add: postMembers_auto gen)
qed

text \<open>
  After 1000 requests to create a member without a number, starting from the empty
  database, the table holds \<open>MEM_001\<close> to \<open>MEM_999\<close> and \<open>MEM_1000\<close>; every further such
  request generates \<open>MEM_1000\<close> again, is refused, and leaves the database as it was.
\<close>

lemma auto_numbering_stops_at_1000:
  assumes "1000 \<le> k"
  shows "autoCreateMembers k emptyDatabase = autoCreateMembers 1000 emptyDatabase
    \<and> generateMemberNumber (autoCreateMembers k emptyDatabase) = ''MEM_1000''
    \<and> postMembers Some (autoCreateMembers k emptyDatabase) (memberRow []) =
        (ServerError ''Failed to create member'', autoCreateMembers k emptyDatabase)"
  using assms
proof (induction k rule: dec_induct)
  case base
  show ?case using refused_after_1000 [OF autoCreateMembers_1000] by simp
next
  case (step n)
  let ?A = "\<lambda>j. autoCreateMembers j emptyDatabase"
  note e = step.IH [THEN conjunct1]
  note p = step.IH [THEN conjunct2, THEN conjunct2]
  have "?A (Suc n) = snd (postMembers Some (?A n) (memberRow []))" by simp
  also have "\<dots> = ?A n" by (simp only: p snd_conv)
  finally have s: "?A (Suc n) = ?A 1000" using e by simp
  show ?case
    using refused_after_1000 [OF autoCreateMembers_1000] by (simp only: s)
qed

lemma past_999_order: "''MEM_1000'' < ''MEM_999''"
  by simp

lemma past_999_members:
  "generateMemberNumber (dbWithMembers [''MEM_999'']) = ''MEM_1000''"
  "generateMemberNumber (dbWithMembers [''MEM_999'', ''MEM_1000'']) = ''MEM_1000''"
  "snd (createMember (dbWithMembers [''MEM_999'']) (memberRow [])) =
     Inr (memberRow ''MEM_1000'', dbWithMembers [''MEM_999'', ''MEM_1000''])"
  "snd (createMember (dbWithMembers [''MEM_999'', ''MEM_1000'']) (memberRow [])) =
     Inl UniqueViolation"
  by code_simp+

lemma past_999_loans:
  "generateLoanNumber 2024 (dbWithLoans [''L24999'', ''L241000'']) = ''L241000''"
  by code_simp

lemma past_999_vouchers:
  "generateVoucherNumber 2024
     (dbWithVouchers [voucherRow ''P24999'' payment [], voucherRow ''P241000'' payment []])
     payment = ''P241000''"
  by code_simp

text \<open>
  Claim C4 fails on the code past 999. \<open>MEM_1000\<close> is below \<open>MEM_999\<close> in string order.
  After 1000 requests to create a member without a number, starting from the empty
  database, \<open>MEM_1000\<close> is stored, the generator returns \<open>MEM_1000\<close> once more, and the
  next request is answered with status 500. The same is seen on the table that holds
  only \<open>MEM_999\<close>: the first creation stores \<open>MEM_1000\<close>, the second generates
  \<open>MEM_1000\<close> again and fails on the unique constraint. Loan and voucher numbers repeat in
  the same way.
\<close>

theorem generated_number_repeats_past_999:
  "''MEM_1000'' < ''MEM_999''
   \<and> ''MEM_1000'' \<in> set (map memNo (members (autoCreateMembers 1000 emptyDatabase)))
   \<and> generateMemberNumber (autoCreateMembers 1000 emptyDatabase) = ''MEM_1000''
   \<and> statusCode (fst (postMembers Some (autoCreateMembers 1000 emptyDatabase) (memberRow [])))
        = 500
   \<and> generateMemberNumber (dbWithMembers [''MEM_999'']) = ''MEM_1000''
   \<and> snd (createMember (dbWithMembers [''MEM_999'']) (memberRow [])) =
       Inr (memberRow ''MEM_1000'', dbWithMembers [''MEM_999'', ''MEM_1000''])
   \<and> generateMemberNumber (dbWithMembers [''MEM_999'', ''MEM_1000'']) = ''MEM_1000''
   \<and> snd (createMember (dbWithMembers [''MEM_999'', ''MEM_1000'']) (memberRow [])) =
       Inl UniqueViolation
   \<and> generateLoanNumber 2024 (dbWithLoans [''L24999'', ''L241000'']) = ''L241000''
   \<and> generateVoucherNumber 2024
       (dbWithVouchers [voucherRow ''P24999'' payment [], voucherRow ''P241000'' payment []])
       payment = ''P241000''"
proof -
  have stored: "''MEM_1000'' \<in> set (map memNo (members (autoCreateMembers 1000 emptyDatabase)))"
    by (simp only: autoCreateMembers_1000) simp
  have "(1000::nat) \<le> 1000" by simp
  note stop = auto_numbering_stops_at_1000 [OF this]
  have status: "statusCode (fst (postMembers Some (autoCreateMembers 1000 emptyDatabase)
      (memberRow []))) = 500"
    by (simp only: stop [THEN conjunct2, THEN conjunct2]) simp
  show ?thesis
    using past_999_order stored stop [THEN conjunct2, THEN conjunct1] status
      past_999_members past_999_loans past_999_vouchers
    by (intro conjI)
qed

end
